theory Spec2Isabelle
  imports Main "HOL-Library.Word"
begin

text \<open>
  \<open>server.js\<close> is an Express server with two routes. \<open>POST /prepare-pdf\<close> takes an HTML
  document, injects the style of the chosen template, has \<open>html-pdf\<close> render it and keeps the
  PDF in memory under a fresh identifier for ten minutes. \<open>GET /download/:id\<close> sends a kept
  PDF once. The theory models both handlers, the string operations they use and the timer,
  and proves what the specification says about them.
\<close>

section \<open>JavaScript strings\<close>

text \<open>
  A JavaScript string is a sequence of UTF-16 code units. \<open>server.js\<close> works on code units
  throughout: its regular expressions carry no \<open>u\<close> flag, and \<open>substring\<close>, \<open>charAt\<close> and
  \<open>slice\<close> count code units. String literals of the source are ASCII and are written with
  \<open>ascii\<close>.
\<close>

type_synonym jschar = "16 word"
type_synonym jsstring = "jschar list"

definition ascii :: "string \<Rightarrow> jsstring" where
  "ascii s = map (\<lambda>c. of_nat (of_char c)) s"

definition in_range :: "nat \<Rightarrow> nat \<Rightarrow> jschar \<Rightarrow> bool" where
  "in_range lo hi c = (lo \<le> unat c \<and> unat c \<le> hi)"

text \<open>
  The class \<open>\s\<close> of a regular expression and the code units removed by \<open>trim()\<close> are the
  same set: ECMAScript's WhiteSpace (TAB, VT, FF, SP, NBSP, ZWNBSP and the other space
  separators) and LineTerminator (LF, CR, LS, PS).
\<close>

definition isWhiteSpace :: "jschar \<Rightarrow> bool" where
  "isWhiteSpace c =
     (unat c \<in> {0x09, 0x0A, 0x0B, 0x0C, 0x0D, 0x20, 0xA0, 0x1680, 0x2028, 0x2029,
                0x202F, 0x205F, 0x3000, 0xFEFF}
      \<or> in_range 0x2000 0x200A c)"

text \<open>The class \<open>[a-zA-Z0-9_-]\<close> of line 66.\<close>

definition isNameChar :: "jschar \<Rightarrow> bool" where
  "isNameChar c =
     (in_range 0x61 0x7A c \<or> in_range 0x41 0x5A c \<or> in_range 0x30 0x39 c
      \<or> unat c = 0x5F \<or> unat c = 0x2D)"

text \<open>\<open>String.prototype.trim\<close>: white space is removed from both ends.\<close>

definition trim :: "jsstring \<Rightarrow> jsstring" where
  "trim s = rev (dropWhile isWhiteSpace (rev (dropWhile isWhiteSpace s)))"

text \<open>
  \<open>.replace(/\s+/g, '_')\<close>: scanning from the left, every maximal run of white space (the
  \<open>+\<close> is greedy) is replaced by one underscore. The replacement text has no \<open>$\<close>, so it is
  taken literally.
\<close>

function replace_whitespace_runs :: "jsstring \<Rightarrow> jsstring" where
  "replace_whitespace_runs [] = []"
| "replace_whitespace_runs (c # cs) =
     (if isWhiteSpace c then 0x5F # replace_whitespace_runs (dropWhile isWhiteSpace cs)
      else c # replace_whitespace_runs cs)"
  by pat_completeness auto
termination
  by (relation "measure length") (auto simp: length_dropWhile_le less_Suc_eq_le)

text \<open>\<open>.replace(/[^a-zA-Z0-9_-]/g, '')\<close>: every code unit outside the class is deleted.\<close>

fun remove_special_chars :: "jsstring \<Rightarrow> jsstring" where
  "remove_special_chars [] = []"
| "remove_special_chars (c # cs) =
     (if isNameChar c then c # remove_special_chars cs else remove_special_chars cs)"

text \<open>\<open>.substring(0, n)\<close> keeps the first \<open>n\<close> code units, or all of them when there are fewer.\<close>

definition substring0 :: "nat \<Rightarrow> jsstring \<Rightarrow> jsstring" where
  "substring0 n s = take n s"

text \<open>The sanitising chain of lines 64 to 67.\<close>

definition sanitize :: "jsstring \<Rightarrow> jsstring" where
  "sanitize s = substring0 50 (remove_special_chars (replace_whitespace_runs (trim s)))"

section \<open>Template styles\<close>

text \<open>
  The three template literals of \<open>TEMPLATE_STYLES\<close> (lines 18 to 39), with their line feeds
  and indentation.
\<close>

definition classic_css :: jsstring where
  \<open>classic_css =
     [0x0A]
     @ ascii ''        /* Classic Styles */''
     @ [0x0A]
     @ ascii ''        .template-classic .resume h1{font-family: "Georgia", "Times New Roman", serif;}''
     @ [0x0A]
     @ ascii ''        .template-classic .resume h2{font-family: "Georgia", "Times New Roman", serif;}''
     @ [0x0A]
     @ ascii ''    ''\<close>

definition modern_css :: jsstring where
  \<open>modern_css =
     [0x0A]
     @ ascii ''        /* Modern Styles */''
     @ [0x0A]
     @ ascii ''        .template-modern .resume h1{letter-spacing:.3px;}''
     @ [0x0A]
     @ ascii ''        .template-modern .resume .section h2{border-bottom:2px solid #111827;}''
     @ [0x0A]
     @ ascii ''        .template-modern .resume .item .top{color:#0f172a;}''
     @ [0x0A]
     @ ascii ''        /* FIX: Increased top padding significantly to 25mm to ensure the header clears the accent bar and top page margin */''
     @ [0x0A]
     @ ascii ''        .template-modern .resume {padding-top: 25mm !important;} ''
     @ [0x0A]
     @ ascii ''        .template-modern .accent{height:6px; background:#111827; margin:-22mm -22mm 16px; border-radius:10px 10px 0 0;}''
     @ [0x0A]
     @ ascii ''    ''\<close>

definition minimal_css :: jsstring where
  \<open>minimal_css =
     [0x0A]
     @ ascii ''        /* Minimal Styles */''
     @ [0x0A]
     @ ascii ''        /* FIX: Changed transparent background to a solid light grey (#f3f4f6) to ensure it renders in the PDF */''
     @ [0x0A]
     @ ascii ''        .template-minimal .resume .section h2{border:none; background:#f3f4f6; padding:6px 8px; border-radius:6px;}''
     @ [0x0A]
     @ ascii ''    ''\<close>

text \<open>
  What a property read can give here: \<open>undefined\<close>, a string, a built-in function (known by
  its name) or the object \<open>Object.prototype\<close>.
\<close>

datatype property = Undefined | Text jsstring | NativeFunction jsstring | ObjectPrototype

text \<open>
  \<open>TEMPLATE_STYLES\<close> is an object literal, so a read \<open>TEMPLATE_STYLES[k]\<close> that finds no own
  property goes on to the prototype, \<open>Object.prototype\<close>. Its properties are \<open>constructor\<close>
  (the function \<open>Object\<close>), the accessor \<open>__proto__\<close> (which gives the prototype of the
  receiver, \<open>Object.prototype\<close> itself) and ten methods.
\<close>

definition own_styles :: "(jsstring \<times> jsstring) list" where
  "own_styles =
     [(ascii ''classic'', classic_css), (ascii ''modern'', modern_css),
      (ascii ''minimal'', minimal_css)]"

definition Object_prototype_methods :: "jsstring list" where
  "Object_prototype_methods =
     map ascii [''__defineGetter__'', ''__defineSetter__'', ''hasOwnProperty'',
       ''__lookupGetter__'', ''__lookupSetter__'', ''isPrototypeOf'',
       ''propertyIsEnumerable'', ''toString'', ''valueOf'', ''toLocaleString'']"

definition Object_prototype :: "jsstring \<Rightarrow> property" where
  "Object_prototype k =
     (if k = ascii ''constructor'' then NativeFunction (ascii ''Object'')
      else if k = ascii ''__proto__'' then ObjectPrototype
      else if k \<in> set Object_prototype_methods then NativeFunction k
      else Undefined)"

definition TEMPLATE_STYLES :: "jsstring \<Rightarrow> property" where
  "TEMPLATE_STYLES k =
     (case map_of own_styles k of Some css \<Rightarrow> Text css | None \<Rightarrow> Object_prototype k)"

fun truthy_property :: "property \<Rightarrow> bool" where
  "truthy_property Undefined = False"
| "truthy_property (Text s) = (s \<noteq> [])"
| "truthy_property (NativeFunction n) = True"
| "truthy_property ObjectPrototype = True"

text \<open>The string a template literal \<open>${v}\<close> puts in place of the value.\<close>

fun ToString :: "property \<Rightarrow> jsstring" where
  \<open>ToString Undefined = ascii ''undefined''\<close>
| \<open>ToString (Text s) = s\<close>
| \<open>ToString (NativeFunction n) = ascii ''function '' @ n @ ascii ''() { [native code] }''\<close>
| \<open>ToString ObjectPrototype = ascii ''[object Object]''\<close>

text \<open>Line 78: \<open>TEMPLATE_STYLES[templateName] || ''\<close>.\<close>

definition styleSnippet :: "jsstring \<Rightarrow> property" where
  "styleSnippet templateName =
     (let v = TEMPLATE_STYLES templateName in if truthy_property v then v else Text [])"

text \<open>Line 83.\<close>

definition styleTag :: "property \<Rightarrow> jsstring" where
  \<open>styleTag snippet =
     ascii ''<style id="template-injection">'' @ ToString snippet @ ascii ''</style>''\<close>

section \<open>String replacement\<close>

text \<open>
  \<open>indexOf\<close> gives the position of the first occurrence of the pattern. \<open>occurs_at\<close> says
  that the pattern stands at a position.
\<close>

definition occurs_at :: "jsstring \<Rightarrow> jsstring \<Rightarrow> nat \<Rightarrow> bool" where
  "occurs_at pat s i = (take (length pat) (drop i s) = pat)"

fun indexOf :: "jsstring \<Rightarrow> jsstring \<Rightarrow> nat option" where
  "indexOf pat [] = (if pat = [] then Some 0 else None)"
| "indexOf pat (c # cs) =
     (if take (length pat) (c # cs) = pat then Some 0 else map_option Suc (indexOf pat cs))"

text \<open>
  \<open>String.prototype.replace\<close> with a string pattern replaces the first occurrence only, and
  expands the replacement text first (GetSubstitution): \<open>$$\<close> is a dollar sign, \<open>$&\<close> the
  matched text, \<open>$`\<close> the text before the match and \<open>$'\<close> the text after it. A string
  pattern has no capture groups, so every other \<open>$\<close> stays as it is.
\<close>

fun GetSubstitution :: "jsstring \<Rightarrow> jsstring \<Rightarrow> jsstring \<Rightarrow> jsstring \<Rightarrow> jsstring" where
  "GetSubstitution matched preceding following [] = []"
| "GetSubstitution matched preceding following [c] = [c]"
| "GetSubstitution matched preceding following (c # d # r) =
     (if c = 0x24 \<and> d = 0x24 then 0x24 # GetSubstitution matched preceding following r
      else if c = 0x24 \<and> d = 0x26 then matched @ GetSubstitution matched preceding following r
      else if c = 0x24 \<and> d = 0x60 then preceding @ GetSubstitution matched preceding following r
      else if c = 0x24 \<and> d = 0x27 then following @ GetSubstitution matched preceding following r
      else c # GetSubstitution matched preceding following (d # r))"

definition replace :: "jsstring \<Rightarrow> jsstring \<Rightarrow> jsstring \<Rightarrow> jsstring" where
  "replace s pat replacement =
     (case indexOf pat s of
        None \<Rightarrow> s
      | Some i \<Rightarrow>
          (let preceding = take i s; following = drop (i + length pat) s
           in preceding @ GetSubstitution pat preceding following replacement @ following))"

section \<open>Values of a request\<close>

text \<open>
  The fields of the JSON body and the query parameter can be any JSON value, or absent
  (\<open>undefined\<close>). The handler only tests a number for truthiness, so numbers are kept as
  integers.
\<close>

datatype jsval =
    JUndefined | JNull | JBool bool | JNumber int | JString jsstring
  | JArray "jsval list" | JObject "(jsstring \<times> jsval) list"

fun truthy :: "jsval \<Rightarrow> bool" where
  "truthy JUndefined = False"
| "truthy JNull = False"
| "truthy (JBool b) = b"
| "truthy (JNumber n) = (n \<noteq> 0)"
| "truthy (JString s) = (s \<noteq> [])"
| "truthy (JArray xs) = True"
| "truthy (JObject kvs) = True"

text \<open>
  A template literal \<open>${v}\<close> converts the value to a string. For an object that is the
  inherited \<open>toString\<close>, unless the object has a key \<open>toString\<close> of its own: a JSON value is
  not callable, the inherited \<open>valueOf\<close> gives the object back, and the conversion throws a
  TypeError. An array joins the conversions of its elements (nothing for \<open>null\<close>), so it
  throws when one of them does.
\<close>

fun ToString_throws :: "jsval \<Rightarrow> bool" where
  "ToString_throws (JObject kvs) = (ascii ''toString'' \<in> set (map fst kvs))"
| "ToString_throws (JArray xs) = list_ex ToString_throws xs"
| "ToString_throws v = False"

text \<open>
  The exceptions of a run: the TypeError of the language, and the AssertionError with which
  \<open>html-pdf\<close> refuses a document that is not a string with characters.
\<close>

datatype error = TypeError | AssertionError

text \<open>
  Lines 81 to 86. Only a string has a method \<open>replace\<close>: on any other truthy value the call
  \<open>html.replace(...)\<close> throws a TypeError.
\<close>

definition finalHtml :: "jsstring \<Rightarrow> jsval \<Rightarrow> error + jsval" where
  \<open>finalHtml templateName html =
     (let snippet = styleSnippet templateName in
      if truthy_property snippet then
        (case html of
           JString h \<Rightarrow>
             Inr (JString (replace h (ascii ''</head>'')
                    (styleTag snippet @ [0x0A] @ ascii ''</head>'')))
         | _ \<Rightarrow> Inl TypeError)
      else Inr html)\<close>

section \<open>The file name\<close>

text \<open>
  Lines 61 to 68. The default \<open>'CV'\<close> stays unless \<open>personName\<close> is a string that is not blank.
\<close>

definition baseName :: "jsval \<Rightarrow> jsstring" where
  "baseName personName =
     (case personName of
        JString p \<Rightarrow> if truthy personName \<and> trim p \<noteq> [] then sanitize p else ascii ''CV''
      | _ \<Rightarrow> ascii ''CV'')"

text \<open>
  \<open>toUpperCase\<close> on the one code unit that \<open>charAt(0)\<close> gives. ASCII letters map as usual and
  the other ASCII code units stay; above ASCII the result comes from the Unicode case
  tables of the runtime (it can be longer than one code unit), which are a parameter here.
\<close>

definition toUpperCase :: "(jschar \<Rightarrow> jsstring) \<Rightarrow> jschar \<Rightarrow> jsstring" where
  "toUpperCase unicode_upper c =
     (if in_range 0x61 0x7A c then [c - 0x20]
      else if unat c < 0x80 then [c]
      else unicode_upper c)"

text \<open>Line 70: \<open>templateName.charAt(0).toUpperCase() + templateName.slice(1)\<close>.\<close>

definition templateSuffix :: "(jschar \<Rightarrow> jsstring) \<Rightarrow> jsstring \<Rightarrow> jsstring" where
  "templateSuffix unicode_upper templateName =
     (case templateName of
        [] \<Rightarrow> []
      | c # cs \<Rightarrow> toUpperCase unicode_upper c @ cs)"

text \<open>Line 71, on the string that \<open>uuidv4()\<close> returned.\<close>

definition uniqueId :: "jsstring \<Rightarrow> jsstring" where
  "uniqueId uuid = substring0 8 uuid"

text \<open>Line 74.\<close>

definition pdf_filename :: "jsstring \<Rightarrow> jsstring \<Rightarrow> jsstring \<Rightarrow> jsstring" where
  "pdf_filename base suffix unique =
     base @ ascii ''_'' @ suffix @ ascii ''_'' @ unique @ ascii ''.pdf''"

text \<open>
  The \<open>uuid\<close> package is not part of the repository. Its \<open>v4()\<close> returns 36 characters:
  lower-case hexadecimal digits in groups of 8, 4, 4, 4 and 12, with hyphens between them.
\<close>

definition isHexDigit :: "jschar \<Rightarrow> bool" where
  "isHexDigit c = (in_range 0x30 0x39 c \<or> in_range 0x61 0x66 c)"

definition is_uuid :: "jsstring \<Rightarrow> bool" where
  "is_uuid u =
     (length u = 36 \<and>
      list_all (\<lambda>i. if i \<in> set [8, 13, 18, 23] then u ! i = 0x2D else isHexDigit (u ! i))
        [0..<36])"

section \<open>The server\<close>

text \<open>
  \<open>pdfStore\<close> is a \<open>Map\<close> from identifiers to \<open>{ buffer, filename }\<close>. The pending timeouts
  (each one a due time in milliseconds and the identifier its callback deletes) and the
  clock belong to the runtime; they are part of the state because line 106 schedules on
  them.
\<close>

record artifact =
  buffer :: "8 word list"
  filename :: jsstring

record server =
  pdfStore :: "jsstring \<rightharpoonup> artifact"
  timeouts :: "(nat \<times> jsstring) list"
  clock :: nat

text \<open>
  What the handler takes from outside: the case tables, the two results of \<open>uuidv4()\<close> (line
  71 and line 88) and what \<open>html-pdf\<close> hands to the callback of \<open>toBuffer\<close> for a document
  it has accepted, an error (the renderer failed or ran into its 30 second timeout) or a
  buffer.
\<close>

datatype render_result = RenderError | Rendered "8 word list"

record collaborators =
  unicode_upper :: "jschar \<Rightarrow> jsstring"
  uuid_unique :: jsstring
  uuid_id :: jsstring
  toBuffer :: "jsstring \<Rightarrow> render_result"

record request =
  html :: jsval
  personName :: jsval
  template :: jsval

text \<open>
  The responses. An exception that leaves a handler is caught by Express, which answers
  with status 500.
\<close>

datatype response =
    MissingHtml
  | FailedToCreate
  | Prepared jsstring jsstring jsstring
  | NotFound
  | Attachment jsstring "8 word list"
  | Thrown error

fun status :: "response \<Rightarrow> nat" where
  "status MissingHtml = 400"
| "status FailedToCreate = 500"
| "status (Prepared i url name) = 200"
| "status NotFound = 404"
| "status (Attachment disposition bytes) = 200"
| "status (Thrown e) = 500"

fun returned_id :: "response \<Rightarrow> jsstring option" where
  "returned_id (Prepared i url name) = Some i"
| "returned_id r = None"

text \<open>
  Line 55, \<open>req.query.template || 'classic'\<close>, and the uses of the value in lines 58 and
  70. The log of line 58 converts it to a string, which can only throw for a value that is
  not a string, and only a string has the \<open>charAt\<close> of line 70: a string passes both lines,
  and an array or an object from the query string ends in a TypeError at one of them.
\<close>

definition templateName :: "request \<Rightarrow> error + jsstring" where
  "templateName req =
     (case (if truthy (template req) then template req else JString (ascii ''classic'')) of
        JString t \<Rightarrow> Inr t
      | _ \<Rightarrow> Inl TypeError)"

definition TTL :: nat where
  "TTL = 10 * 60 * 1000"

text \<open>
  The handler of \<open>POST /prepare-pdf\<close>, lines 43 to 112, in its two parts. The first part runs
  with the request, up to the call of \<open>pdf.create\<close> in line 91:
  \<^item> line 48 logs \<open>personName || 'Name not provided'\<close> in a template literal, before the
    test of \<open>html\<close>, so a truthy \<open>personName\<close> is converted to a string first;
  \<^item> line 50 answers 400 when \<open>html\<close> is falsy;
  \<^item> lines 55 to 86 compute the template name, the file name and the document;
  \<^item> \<open>pdf.create\<close> of \<open>html-pdf\<close> (not part of the repository) asserts that the document is a
    string with characters, and throws otherwise.
  It ends in a response, or hands the file name, the identifier of line 88 and the document
  on to the renderer.
\<close>

definition before_render ::
  "collaborators \<Rightarrow> request \<Rightarrow> response + (jsstring \<times> jsstring \<times> jsstring)" where
  "before_render env req =
     (if truthy (personName req) \<and> ToString_throws (personName req) then Inl (Thrown TypeError)
      else if \<not> truthy (html req) then Inl MissingHtml
      else
        (case templateName req of
           Inl e \<Rightarrow> Inl (Thrown e)
         | Inr t \<Rightarrow>
             (let name = pdf_filename (baseName (personName req))
                           (templateSuffix (unicode_upper env) t) (uniqueId (uuid_unique env))
              in case finalHtml t (html req) of
                   Inl e \<Rightarrow> Inl (Thrown e)
                 | Inr (JString doc) \<Rightarrow>
                     if doc = [] then Inl (Thrown AssertionError)
                     else Inr (name, uuid_id env, doc)
                 | Inr other \<Rightarrow> Inl (Thrown AssertionError))))"

text \<open>
  The second part is the callback of \<open>toBuffer\<close>, lines 96 to 111. The store is read and
  written here only, so the state passed in is the state at the time of the callback.
\<close>

definition toBuffer_callback ::
  "jsstring \<Rightarrow> jsstring \<Rightarrow> render_result \<Rightarrow> server \<Rightarrow> response \<times> server" where
  "toBuffer_callback name i result srv =
     (case result of
        RenderError \<Rightarrow> (FailedToCreate, srv)
      | Rendered buf \<Rightarrow>
          (Prepared i (ascii ''/download/'' @ i) name,
           srv\<lparr>pdfStore := (pdfStore srv)(i \<mapsto> \<lparr>buffer = buf, filename = name\<rparr>),
               timeouts := timeouts srv @ [(clock srv + TTL, i)]\<rparr>))"

definition prepare_pdf :: "collaborators \<Rightarrow> request \<Rightarrow> server \<Rightarrow> response \<times> server" where
  "prepare_pdf env req srv =
     (case before_render env req of
        Inl r \<Rightarrow> (r, srv)
      | Inr (name, i, doc) \<Rightarrow> toBuffer_callback name i (toBuffer env doc) srv)"

text \<open>
  Node refuses a header value with a code unit other than TAB, \<open>0x20\<close> to \<open>0x7e\<close> and
  \<open>0x80\<close> to \<open>0xff\<close>: \<open>setHeader\<close>, which \<open>res.set\<close> calls, throws a TypeError
  (\<open>ERR_INVALID_CHAR\<close>).
\<close>

definition valid_header_char :: "jschar \<Rightarrow> bool" where
  "valid_header_char c = (unat c = 0x09 \<or> in_range 0x20 0x7E c \<or> in_range 0x80 0xFF c)"

definition content_disposition :: "jsstring \<Rightarrow> jsstring" where
  \<open>content_disposition name = ascii ''attachment; filename="'' @ name @ ascii ''"''\<close>

text \<open>The handler of \<open>GET /download/:id\<close>, lines 115 to 128.\<close>

definition download :: "jsstring \<Rightarrow> server \<Rightarrow> response \<times> server" where
  "download i srv =
     (case pdfStore srv i of
        None \<Rightarrow> (NotFound, srv)
      | Some data \<Rightarrow>
          (if list_all valid_header_char (content_disposition (filename data))
           then (Attachment (content_disposition (filename data)) (buffer data),
                 srv\<lparr>pdfStore := (pdfStore srv)(i := None)\<rparr>)
           else (Thrown TypeError, srv)))"

text \<open>
  The callback of line 106, \<open>() => pdfStore.delete(id)\<close>. Deleting a key that a \<open>Map\<close> does
  not hold is not an error.
\<close>

definition expire :: "jsstring \<Rightarrow> server \<Rightarrow> server" where
  "expire i srv = srv\<lparr>pdfStore := (pdfStore srv)(i := None)\<rparr>"

text \<open>
  Time passes, and the event loop runs the callbacks of the timeouts that are due. A
  timeout never runs before its delay is over; how long after is up to the event loop, so
  the two are separate steps.
\<close>

definition elapse :: "nat \<Rightarrow> server \<Rightarrow> server" where
  "elapse ms srv = srv\<lparr>clock := clock srv + ms\<rparr>"

definition is_due :: "server \<Rightarrow> nat \<times> jsstring \<Rightarrow> bool" where
  "is_due srv t = (fst t \<le> clock srv)"

definition run_timers :: "server \<Rightarrow> server" where
  "run_timers srv =
     fold (\<lambda>t. expire (snd t)) (filter (is_due srv) (timeouts srv))
       (srv\<lparr>timeouts := filter (Not \<circ> is_due srv) (timeouts srv)\<rparr>)"

text \<open>A run of the server is a sequence of such steps.\<close>

datatype event =
    PreparePdf collaborators request
  | Download jsstring
  | Elapse nat
  | RunTimers

fun step :: "event \<Rightarrow> server \<Rightarrow> server" where
  "step (PreparePdf env req) srv = snd (prepare_pdf env req srv)"
| "step (Download i) srv = snd (download i srv)"
| "step (Elapse ms) srv = elapse ms srv"
| "step RunTimers srv = run_timers srv"

definition run :: "event list \<Rightarrow> server \<Rightarrow> server" where
  "run es srv = fold step es srv"

section \<open>Notions of the specification\<close>

text \<open>
  The first occurrence of a marker in a document, and a document without the marker, said
  with positions: the marker stands at \<open>i\<close> and at no earlier position, or at no position.
\<close>

definition first_occurrence :: "jsstring \<Rightarrow> jsstring \<Rightarrow> nat \<Rightarrow> bool" where
  "first_occurrence pat s i =
     (i \<le> length s \<and> occurs_at pat s i \<and> list_all (\<lambda>j. \<not> occurs_at pat s j) [0..<i])"

definition no_occurrence :: "jsstring \<Rightarrow> jsstring \<Rightarrow> bool" where
  "no_occurrence pat s = list_all (\<lambda>j. \<not> occurs_at pat s j) [0..<Suc (length s)]"

text \<open>
  The base name in the words of the specification: the trimmed hint is cut at its runs of
  white space into words, the words are joined with single underscores, the code units
  outside \<open>[A-Za-z0-9_-]\<close> are dropped and the first 50 are kept.
\<close>

function words :: "jsstring \<Rightarrow> jsstring list" where
  "words s =
     (case dropWhile isWhiteSpace s of
        [] \<Rightarrow> []
      | c # cs \<Rightarrow>
          (c # takeWhile (Not \<circ> isWhiteSpace) cs) # words (dropWhile (Not \<circ> isWhiteSpace) cs))"
  by pat_completeness auto
termination
proof (relation "measure length", simp, goal_cases)
  case (1 s c cs)
  have "length (dropWhile (Not \<circ> isWhiteSpace) cs) \<le> length cs"
    by (rule length_dropWhile_le)
  moreover have "length (c # cs) \<le> length s"
    unfolding 1 [symmetric] by (rule length_dropWhile_le)
  ultimately show ?case by simp
qed

declare words.simps [simp del]

fun join_underscore :: "jsstring list \<Rightarrow> jsstring" where
  "join_underscore [] = []"
| "join_underscore [w] = w"
| "join_underscore (w # v # ws) = w @ 0x5F # join_underscore (v # ws)"

definition spec_base :: "jsstring \<Rightarrow> jsstring" where
  "spec_base hint = take 50 (filter isNameChar (join_underscore (words (trim hint))))"

definition spec_base_name :: "jsval \<Rightarrow> jsstring" where
  "spec_base_name hint =
     (case hint of
        JString p \<Rightarrow> if trim p = [] then ascii ''CV'' else spec_base p
      | _ \<Rightarrow> ascii ''CV'')"

text \<open>
  A run in which an identifier is not stored again, and a run in which it is never
  downloaded.
\<close>

fun stores :: "jsstring \<Rightarrow> event \<Rightarrow> bool" where
  "stores i (PreparePdf env req) = (uuid_id env = i)"
| "stores i e = False"

fun retrieves :: "jsstring \<Rightarrow> event \<Rightarrow> bool" where
  "retrieves i (Download j) = (j = i)"
| "retrieves i e = False"

definition not_stored_again :: "jsstring \<Rightarrow> event list \<Rightarrow> bool" where
  "not_stored_again i es = list_all (Not \<circ> stores i) es"

definition never_retrieved :: "jsstring \<Rightarrow> event list \<Rightarrow> bool" where
  "never_retrieved i es = list_all (Not \<circ> retrieves i) es"

section \<open>Example inputs\<close>

definition example_env :: collaborators where
  "example_env =
     \<lparr>unicode_upper = (\<lambda>c. [c]),
      uuid_unique = ascii ''1b9d6bcd-bbfd-4b2d-9b5d-ab8dfbbd4bed'',
      uuid_id = ascii ''9c5b94b1-35ad-49bb-b118-8e8fc24abf80'',
      toBuffer = (\<lambda>doc. Rendered [0x25, 0x50, 0x44, 0x46])\<rparr>"

definition failing_env :: collaborators where
  "failing_env = example_env\<lparr>toBuffer := (\<lambda>doc. RenderError)\<rparr>"

definition example_id :: jsstring where
  "example_id = ascii ''9c5b94b1-35ad-49bb-b118-8e8fc24abf80''"

definition empty_server :: server where
  "empty_server = \<lparr>pdfStore = Map.empty, timeouts = [], clock = 0\<rparr>"

definition example_request :: "jsval \<Rightarrow> jsval \<Rightarrow> request" where
  "example_request name kind =
     \<lparr>html = JString (ascii ''<html><head></head><body>CV</body></html>''),
      personName = name, template = kind\<rparr>"

definition example_stored :: server where
  "example_stored =
     snd (prepare_pdf example_env
            (example_request (JString (ascii ''Jane  Doe!!'')) (JString (ascii ''modern'')))
            empty_server)"

section \<open>Properties of sanitising\<close>

lemma nameChar_not_whiteSpace: "isNameChar c \<Longrightarrow> \<not> isWhiteSpace c"
  unfolding isNameChar_def isWhiteSpace_def in_range_def by auto

lemma remove_special_chars_filter: "remove_special_chars s = filter isNameChar s"
  by (induction s) auto

lemma sanitize_nameChars: "list_all isNameChar (sanitize s)"
proof -
  have "set (sanitize s) \<subseteq> set (filter isNameChar (replace_whitespace_runs (trim s)))"
    unfolding sanitize_def substring0_def remove_special_chars_filter by (rule set_take_subset)
  then show ?thesis by (auto simp: list_all_iff)
qed

lemma sanitize_length: "length (sanitize s) \<le> 50"
  by (simp add: sanitize_def substring0_def)

lemma dropWhile_none: "list_all (\<lambda>c. \<not> P c) s \<Longrightarrow> dropWhile P s = s"
  by (cases s) auto

lemma trim_clean: "list_all (\<lambda>c. \<not> isWhiteSpace c) s \<Longrightarrow> trim s = s"
proof -
  assume a: "list_all (\<lambda>c. \<not> isWhiteSpace c) s"
  then have "list_all (\<lambda>c. \<not> isWhiteSpace c) (rev s)" by (simp add: list_all_iff)
  then have "dropWhile isWhiteSpace (rev s) = rev s" by (rule dropWhile_none)
  with a show ?thesis by (simp add: trim_def dropWhile_none)
qed

lemma replace_whitespace_runs_clean:
  "list_all (\<lambda>c. \<not> isWhiteSpace c) s \<Longrightarrow> replace_whitespace_runs s = s"
  by (induction s) auto

lemma sanitize_clean:
  assumes "list_all isNameChar s" and "length s \<le> 50"
  shows "sanitize s = s"
proof -
  from assms(1) have ws: "list_all (\<lambda>c. \<not> isWhiteSpace c) s"
    by (auto simp: list_all_iff dest: nameChar_not_whiteSpace)
  from assms(1) have "filter isNameChar s = s"
    by (simp add: list_all_iff)
  with ws assms(2) show ?thesis
    by (simp add: sanitize_def substring0_def remove_special_chars_filter trim_clean
        replace_whitespace_runs_clean)
qed

text \<open>
  Claim C9. The sanitising chain (trim, white-space runs to underscores, strip the code units
  outside \<open>[a-zA-Z0-9_-]\<close>, keep 50) is idempotent: sanitising a sanitised string leaves it
  as it is, for every input string.
\<close>

theorem sanitize_idempotent: "sanitize (sanitize x) = sanitize x"
  by (rule sanitize_clean) (rule sanitize_nameChars, rule sanitize_length)

section \<open>The base name in the words of the specification\<close>

lemma words_Nil: "words [] = []"
  by (simp add: words.simps[of "[]"])

lemma words_space: "isWhiteSpace c \<Longrightarrow> words (c # cs) = words (dropWhile isWhiteSpace cs)"
  by (simp add: words.simps[of "c # cs"] words.simps[of "dropWhile isWhiteSpace cs"])

lemma words_letter:
  "\<not> isWhiteSpace c \<Longrightarrow>
     words (c # cs) = (c # takeWhile (Not \<circ> isWhiteSpace) cs) # words (dropWhile (Not \<circ> isWhiteSpace) cs)"
  by (simp add: words.simps[of "c # cs"])

lemma words_nonempty: "dropWhile isWhiteSpace s \<noteq> [] \<Longrightarrow> words s \<noteq> []"
  by (cases "dropWhile isWhiteSpace s") (simp_all add: words.simps[of s])

lemma join_underscore_Cons: "join_underscore ((c # w) # ws) = c # join_underscore (w # ws)"
  by (cases ws) simp_all

lemma dropWhile_keeps_last: "xs \<noteq> [] \<Longrightarrow> \<not> P (last xs) \<Longrightarrow> dropWhile P xs \<noteq> [] \<and> last (dropWhile P xs) = last xs"
  by (induction xs) (auto split: if_splits)

lemma collapse_words:
  "s = [] \<or> \<not> isWhiteSpace (last s) \<Longrightarrow>
     replace_whitespace_runs s =
       (if s \<noteq> [] \<and> isWhiteSpace (hd s) then [0x5F] else []) @ join_underscore (words s)"
proof (induction s rule: replace_whitespace_runs.induct)
  case 1
  show ?case by (simp add: words_Nil)
next
  case (2 c cs)
  from "2.prems" have lastc: "\<not> isWhiteSpace (last (c # cs))" by simp
  show ?case
  proof (cases "isWhiteSpace c")
    case True
    with lastc have cs: "cs \<noteq> []" "\<not> isWhiteSpace (last cs)" by (auto split: if_splits)
    let ?r = "dropWhile isWhiteSpace cs"
    from dropWhile_keeps_last[where P = isWhiteSpace, OF cs] have r: "?r \<noteq> []" "\<not> isWhiteSpace (last ?r)"
      using cs(2) by auto
    from r(1) have hd: "\<not> isWhiteSpace (hd ?r)" by (rule hd_dropWhile)
    from "2.IH"(1)[OF True] r hd
    have "replace_whitespace_runs ?r = join_underscore (words ?r)" by simp
    with True show ?thesis by (simp add: words_space)
  next
    case False
    show ?thesis
    proof (cases cs)
      case Nil
      with False show ?thesis by (simp add: words_letter words_Nil)
    next
      case (Cons d ds)
      with lastc have lcs: "\<not> isWhiteSpace (last cs)" by simp
      from "2.IH"(2)[OF False] lcs
      have ih: "replace_whitespace_runs cs =
          (if cs \<noteq> [] \<and> isWhiteSpace (hd cs) then [0x5F] else []) @ join_underscore (words cs)"
        by simp
      show ?thesis
      proof (cases "isWhiteSpace d")
        case True
        have "cs \<noteq> []" using Cons by simp
        from dropWhile_keeps_last[where P = isWhiteSpace, OF this lcs] have "words cs \<noteq> []"
          by (simp add: words_nonempty)
        then obtain w ws where w: "words cs = w # ws" by (cases "words cs") auto
        have "words (c # cs) = [c] # words cs"
          using False True Cons by (simp add: words_letter)
        with False True Cons ih w show ?thesis by simp
      next
        case d: False
        have 1: "words cs = (d # takeWhile (Not \<circ> isWhiteSpace) ds) # words (dropWhile (Not \<circ> isWhiteSpace) ds)"
          using d Cons by (simp add: words_letter)
        have 2: "words (c # cs) = (c # d # takeWhile (Not \<circ> isWhiteSpace) ds) # words (dropWhile (Not \<circ> isWhiteSpace) ds)"
          using False d Cons by (simp add: words_letter)
        from False d Cons ih show ?thesis
          unfolding 1 2 by (simp add: join_underscore_Cons)
      qed
    qed
  qed
qed

lemma trim_ends:
  assumes "trim p \<noteq> []"
  shows "\<not> isWhiteSpace (hd (trim p)) \<and> \<not> isWhiteSpace (last (trim p))"
proof -
  let ?q = "dropWhile isWhiteSpace p"
  let ?ys = "dropWhile isWhiteSpace (rev ?q)"
  from assms have ys: "?ys \<noteq> []" by (simp add: trim_def)
  have q: "?q \<noteq> []"
  proof
    assume "?q = []"
    with ys show False by simp
  qed
  from ys have a: "\<not> isWhiteSpace (hd ?ys)" by (rule hd_dropWhile)
  from q have "\<not> isWhiteSpace (hd ?q)" by (rule hd_dropWhile)
  with q have "\<not> isWhiteSpace (last (rev ?q))" by (simp add: last_rev)
  with dropWhile_keeps_last[of "rev ?q" isWhiteSpace] q
  have b: "\<not> isWhiteSpace (last ?ys)" by simp
  from a b ys show ?thesis by (simp add: trim_def last_rev hd_rev)
qed

lemma sanitize_spec_base: "sanitize p = spec_base p"
proof (cases "trim p = []")
  case True
  then show ?thesis
    by (simp add: sanitize_def spec_base_def substring0_def words_Nil)
next
  case False
  from trim_ends[OF False] collapse_words[of "trim p"] False
  have "replace_whitespace_runs (trim p) = join_underscore (words (trim p))" by simp
  then show ?thesis
    by (simp add: sanitize_def spec_base_def substring0_def remove_special_chars_filter)
qed

section \<open>Injecting the style\<close>

lemma GetSubstitution_literal: "0x24 \<notin> set r \<Longrightarrow> GetSubstitution m p f r = r"
  by (induction m p f r rule: GetSubstitution.induct) auto

lemma indexOf_Some:
  "indexOf pat s = Some i \<Longrightarrow> i \<le> length s \<and> occurs_at pat s i \<and> (\<forall>j<i. \<not> occurs_at pat s j)"
proof (induction s arbitrary: i)
  case Nil then show ?case by (auto simp: occurs_at_def split: if_splits)
next
  case (Cons c cs)
  show ?case
  proof (cases "take (length pat) (c # cs) = pat")
    case True with Cons.prems show ?thesis by (simp add: occurs_at_def)
  next
    case False
    with Cons.prems obtain k where k: "indexOf pat cs = Some k" "i = Suc k" by auto
    from Cons.IH[OF k(1)] have ih: "k \<le> length cs" "occurs_at pat cs k" "\<forall>j<k. \<not> occurs_at pat cs j" by auto
    have "\<not> occurs_at pat (c # cs) j" if "j < i" for j
    proof (cases j)
      case 0 with False show ?thesis by (simp add: occurs_at_def)
    next
      case (Suc j') with that k ih(3) show ?thesis by (simp add: occurs_at_def)
    qed
    with ih k show ?thesis by (simp add: occurs_at_def)
  qed
qed

lemma indexOf_None:
  "indexOf pat s = None \<Longrightarrow> j \<le> length s \<Longrightarrow> \<not> occurs_at pat s j"
proof (induction s arbitrary: j)
  case Nil then show ?case by (auto simp: occurs_at_def split: if_splits)
next
  case (Cons c cs)
  from Cons.prems(1) have a: "take (length pat) (c # cs) \<noteq> pat" "indexOf pat cs = None"
    by (auto split: if_splits)
  show ?case
  proof (cases j)
    case 0 with a show ?thesis by (simp add: occurs_at_def)
  next
    case (Suc j') with Cons.prems a Cons.IH[of j'] show ?thesis by (simp add: occurs_at_def)
  qed
qed

lemma indexOf_first: "first_occurrence pat s i \<Longrightarrow> indexOf pat s = Some i"
proof -
  assume a: "first_occurrence pat s i"
  then have i: "i \<le> length s" "occurs_at pat s i" "\<forall>j<i. \<not> occurs_at pat s j"
    by (auto simp: first_occurrence_def list_all_iff)
  show ?thesis
  proof (cases "indexOf pat s")
    case None with indexOf_None[OF None i(1)] i(2) show ?thesis by simp
  next
    case (Some k)
    from indexOf_Some[OF Some] have k: "occurs_at pat s k" "\<forall>j<k. \<not> occurs_at pat s j" by auto
    have "k = i" using i k by (meson linorder_neqE_nat)
    with Some show ?thesis by simp
  qed
qed

lemma indexOf_absent: "no_occurrence pat s \<Longrightarrow> indexOf pat s = None"
proof (rule ccontr)
  assume a: "no_occurrence pat s" and "indexOf pat s \<noteq> None"
  then obtain k where "indexOf pat s = Some k" by auto
  from indexOf_Some[OF this] a show False
    by (auto simp: no_occurrence_def list_all_iff)
qed

lemma replace_at_first:
  assumes "first_occurrence pat s i" and "0x24 \<notin> set r"
  shows "replace s pat r = take i s @ r @ drop (i + length pat) s"
  using indexOf_first[OF assms(1)] assms(2)
  by (simp add: replace_def GetSubstitution_literal)

lemma replace_absent: "no_occurrence pat s \<Longrightarrow> replace s pat r = s"
  by (simp add: replace_def indexOf_absent)

lemma own_styles_cases:
  "map_of own_styles t = Some css \<Longrightarrow>
     (t, css) = (ascii ''classic'', classic_css) \<or> (t, css) = (ascii ''modern'', modern_css)
     \<or> (t, css) = (ascii ''minimal'', minimal_css)"
  by (auto simp: own_styles_def split: if_splits)

lemma classic_no_dollar: "0x24 \<notin> set classic_css"
  by (simp add: classic_css_def ascii_def)

lemma modern_no_dollar: "0x24 \<notin> set modern_css"
  by (simp add: modern_css_def ascii_def)

lemma minimal_no_dollar: "0x24 \<notin> set minimal_css"
  by (simp add: minimal_css_def ascii_def)

lemma classic_nonempty: "classic_css \<noteq> []"
  by (simp add: classic_css_def)

lemma modern_nonempty: "modern_css \<noteq> []"
  by (simp add: modern_css_def)

lemma minimal_nonempty: "minimal_css \<noteq> []"
  by (simp add: minimal_css_def)

lemma own_styles_plain:
  "map_of own_styles t = Some css \<Longrightarrow> css \<noteq> [] \<and> 0x24 \<notin> set css"
  using own_styles_cases[of t css] classic_no_dollar modern_no_dollar minimal_no_dollar
    classic_nonempty modern_nonempty minimal_nonempty
  by auto

lemma styleSnippet_own: "map_of own_styles t = Some css \<Longrightarrow> styleSnippet t = Text css"
  using own_styles_plain[of t css] by (simp add: styleSnippet_def TEMPLATE_STYLES_def)

lemma head_marker: \<open>0x24 \<notin> set (ascii ''<style id="template-injection">'') \<and> 0x24 \<notin> set (ascii ''</style>'')
   \<and> 0x24 \<notin> set (ascii ''</head>'')\<close>
  by (simp add: ascii_def)

lemma occurs_at_drop: "occurs_at pat s i \<Longrightarrow> drop i s = pat @ drop (i + length pat) s"
proof -
  assume "occurs_at pat s i"
  then have "take (length pat) (drop i s) = pat" by (simp add: occurs_at_def)
  then have "drop i s = pat @ drop (length pat) (drop i s)"
    by (metis append_take_drop_id)
  then show ?thesis by (simp add: add.commute)
qed

lemma finalHtml_injects:
  assumes "map_of own_styles t = Some css" and f: \<open>first_occurrence (ascii ''</head>'') h i\<close>
  shows \<open>finalHtml t (JString h) =
              Inr (JString (take i h @ ascii ''<style id="template-injection">'' @ css
                     @ ascii ''</style>'' @ [0x0A] @ drop i h))\<close>
proof -
  from own_styles_plain[OF assms(1)] have css: "css \<noteq> []" "0x24 \<notin> set css" by auto
  have nd: \<open>0x24 \<notin> set (styleTag (Text css) @ [0x0A] @ ascii ''</head>'')\<close>
    using css head_marker by (simp add: styleTag_def)
  from f have "occurs_at (ascii ''</head>'') h i" by (simp add: first_occurrence_def)
  from occurs_at_drop[OF this] have d: "drop i h = ascii ''</head>'' @ drop (i + length (ascii ''</head>'')) h" .
  show ?thesis
    unfolding finalHtml_def styleSnippet_own[OF assms(1)] Let_def
    using css(1) replace_at_first[OF f nd] d
    by (simp add: styleTag_def)
qed

lemma finalHtml_no_marker:
  \<open>no_occurrence (ascii ''</head>'') h \<Longrightarrow> finalHtml t (JString h) = Inr (JString h)\<close>
  by (simp add: finalHtml_def Let_def replace_absent)

text \<open>
  Claim C6. For a template kind with a style of its own in \<open>TEMPLATE_STYLES\<close>, the style
  (inside its \<open>style\<close> element, followed by a line feed) is put into the document right in
  front of the first \<open></head>\<close>: the text before position \<open>i\<close> and the text from \<open>i\<close> on, which
  starts with the marker, are unchanged. A document without \<open></head>\<close> goes to the renderer
  as it is, without an error, for this and for every other template name.
\<close>

theorem style_injected_before_first_head:
  assumes "map_of own_styles t = Some css"
  shows \<open>(first_occurrence (ascii ''</head>'') h i \<longrightarrow>
            finalHtml t (JString h) =
              Inr (JString (take i h @ ascii ''<style id="template-injection">'' @ css
                     @ ascii ''</style>'' @ [0x0A] @ drop i h)))
         \<and> (no_occurrence (ascii ''</head>'') h \<longrightarrow>
              finalHtml t (JString h) = Inr (JString h)
              \<and> finalHtml t' (JString h) = Inr (JString h))\<close>
  using finalHtml_injects[OF assms] finalHtml_no_marker by blast

theorem style_injected_before_first_head_witness:
  \<open>finalHtml (ascii ''classic'') (JString (ascii ''<head></head>'')) =
     Inr (JString (ascii ''<head><style id="template-injection">'' @ classic_css
            @ ascii ''</style>'' @ [0x0A] @ ascii ''</head>''))
   \<and> finalHtml (ascii ''classic'') (JString (ascii ''<p>CV</p>'')) = Inr (JString (ascii ''<p>CV</p>''))\<close>
proof -
  have a: "map_of own_styles (ascii ''classic'') = Some classic_css"
    by (simp add: own_styles_def ascii_def)
  have b: \<open>first_occurrence (ascii ''</head>'') (ascii ''<head></head>'') 6\<close>
    by (simp add: first_occurrence_def occurs_at_def ascii_def upt_rec)
  have c: \<open>no_occurrence (ascii ''</head>'') (ascii ''<p>CV</p>'')\<close>
    by (simp add: no_occurrence_def occurs_at_def ascii_def upt_rec)
  from style_injected_before_first_head[OF a, where h = "ascii ''<head></head>''" and i = 6] b
  have 1: \<open>finalHtml (ascii ''classic'') (JString (ascii ''<head></head>'')) =
     Inr (JString (ascii ''<head><style id="template-injection">'' @ classic_css
            @ ascii ''</style>'' @ [0x0A] @ ascii ''</head>''))\<close>
    by (simp add: ascii_def)
  from style_injected_before_first_head[OF a, where h = "ascii ''<p>CV</p>''"] c
  have 2: \<open>finalHtml (ascii ''classic'') (JString (ascii ''<p>CV</p>'')) = Inr (JString (ascii ''<p>CV</p>''))\<close>
    by simp
  from 1 2 show ?thesis by simp
qed

section \<open>The handler of prepare-pdf\<close>

lemma before_render_reaches:
  assumes "\<not> (truthy (personName req) \<and> ToString_throws (personName req))"
    and "truthy (html req)" and "templateName req = Inr t"
    and "finalHtml t (html req) = Inr (JString doc)" and "doc \<noteq> []"
  shows "before_render env req =
     Inr (pdf_filename (baseName (personName req)) (templateSuffix (unicode_upper env) t)
            (uniqueId (uuid_unique env)), uuid_id env, doc)"
  using assms by (simp add: before_render_def Let_def)

lemma before_render_Inr:
  assumes "before_render env req = Inr (name, i, doc)"
  shows "\<exists>t. \<not> (truthy (personName req) \<and> ToString_throws (personName req))
     \<and> truthy (html req) \<and> templateName req = Inr t
     \<and> finalHtml t (html req) = Inr (JString doc) \<and> doc \<noteq> [] \<and> i = uuid_id env
     \<and> name = pdf_filename (baseName (personName req)) (templateSuffix (unicode_upper env) t)
           (uniqueId (uuid_unique env))"
  using assms
  by (auto simp: before_render_def Let_def split: if_splits sum.splits jsval.splits)

lemma prepare_pdf_stores:
  assumes "before_render env req = Inr (name, i, doc)" and "toBuffer env doc = Rendered buf"
  shows "prepare_pdf env req srv =
     (Prepared i (ascii ''/download/'' @ i) name,
      srv\<lparr>pdfStore := (pdfStore srv)(i \<mapsto> \<lparr>buffer = buf, filename = name\<rparr>),
          timeouts := timeouts srv @ [(clock srv + TTL, i)]\<rparr>)"
  using assms by (simp add: prepare_pdf_def toBuffer_callback_def)

lemma prepare_pdf_cases:
  "(\<exists>r. before_render env req = Inl r \<and> prepare_pdf env req srv = (r, srv))
   \<or> (\<exists>name i doc. before_render env req = Inr (name, i, doc) \<and> toBuffer env doc = RenderError
        \<and> prepare_pdf env req srv = (FailedToCreate, srv))
   \<or> (\<exists>name i doc buf. before_render env req = Inr (name, i, doc)
        \<and> toBuffer env doc = Rendered buf
        \<and> prepare_pdf env req srv =
            (Prepared i (ascii ''/download/'' @ i) name,
             srv\<lparr>pdfStore := (pdfStore srv)(i \<mapsto> \<lparr>buffer = buf, filename = name\<rparr>),
                 timeouts := timeouts srv @ [(clock srv + TTL, i)]\<rparr>))"
proof (cases "before_render env req")
  case (Inl r)
  then show ?thesis by (simp add: prepare_pdf_def)
next
  case (Inr x)
  obtain name i doc where x: "x = (name, i, doc)" by (cases x)
  show ?thesis
  proof (cases "toBuffer env doc")
    case RenderError
    with Inr x show ?thesis by (simp add: prepare_pdf_def toBuffer_callback_def)
  next
    case (Rendered buf)
    with Inr x show ?thesis by (simp add: prepare_pdf_def toBuffer_callback_def)
  qed
qed

lemma before_render_not_Prepared: "before_render env req \<noteq> Inl (Prepared i url name)"
  by (auto simp: before_render_def Let_def split: if_splits sum.splits jsval.splits)

lemma prepare_pdf_Prepared:
  assumes "prepare_pdf env req srv = (Prepared i url name, srv')"
  shows "\<exists>t doc buf. truthy (html req) \<and> templateName req = Inr t
     \<and> before_render env req = Inr (name, i, doc)
     \<and> toBuffer env doc = Rendered buf \<and> i = uuid_id env \<and> url = ascii ''/download/'' @ i
     \<and> name = pdf_filename (baseName (personName req)) (templateSuffix (unicode_upper env) t)
           (uniqueId (uuid_unique env))
     \<and> srv' = srv\<lparr>pdfStore := (pdfStore srv)(i \<mapsto> \<lparr>buffer = buf, filename = name\<rparr>),
          timeouts := timeouts srv @ [(clock srv + TTL, i)]\<rparr>"
proof -
  from prepare_pdf_cases[of env req srv] assms before_render_not_Prepared[of env req]
  obtain doc buf where br: "before_render env req = Inr (name, i, doc)"
    and tb: "toBuffer env doc = Rendered buf"
    and u: "url = ascii ''/download/'' @ i"
    and s: "srv' = srv\<lparr>pdfStore := (pdfStore srv)(i \<mapsto> \<lparr>buffer = buf, filename = name\<rparr>),
          timeouts := timeouts srv @ [(clock srv + TTL, i)]\<rparr>"
    by auto
  from before_render_Inr[OF br] br tb u s show ?thesis by blast
qed

lemma example_first_head:
  \<open>first_occurrence (ascii ''</head>'') (ascii ''<html><head></head><body>CV</body></html>'') 12\<close>
  by (simp add: first_occurrence_def occurs_at_def ascii_def upt_rec)

lemma example_modern_reaches:
  "\<exists>doc. before_render env
      (example_request (JString (ascii ''Jane  Doe!!'')) (JString (ascii ''modern'')))
     = Inr (pdf_filename
              (baseName (personName (example_request (JString (ascii ''Jane  Doe!!''))
                 (JString (ascii ''modern'')))))
              (templateSuffix (unicode_upper env) (ascii ''modern''))
              (uniqueId (uuid_unique env)), uuid_id env, doc)"
proof -
  let ?req = "example_request (JString (ascii ''Jane  Doe!!'')) (JString (ascii ''modern''))"
  have t: "templateName ?req = Inr (ascii ''modern'')"
    by (simp add: templateName_def example_request_def ascii_def)
  have m: "map_of own_styles (ascii ''modern'') = Some modern_css"
    by (simp add: own_styles_def ascii_def)
  have h: "truthy (html ?req)"
    by (simp add: example_request_def ascii_def)
  have p: "\<not> (truthy (personName ?req) \<and> ToString_throws (personName ?req))"
    by (simp add: example_request_def)
  from finalHtml_injects[OF m example_first_head]
  obtain doc where f: "finalHtml (ascii ''modern'') (html ?req) = Inr (JString doc)"
    and ne: "doc \<noteq> []"
    by (auto simp: example_request_def ascii_def)
  from before_render_reaches[OF p h t f ne, of env] show ?thesis by blast
qed

lemma example_modern_stored:
  "prepare_pdf example_env
     (example_request (JString (ascii ''Jane  Doe!!'')) (JString (ascii ''modern''))) empty_server
     = (Prepared example_id (ascii ''/download/9c5b94b1-35ad-49bb-b118-8e8fc24abf80'')
         (ascii ''Jane_Doe_Modern_1b9d6bcd.pdf''), example_stored)
   \<and> clock example_stored = 0 \<and> timeouts example_stored = [(600000, example_id)]"
proof -
  let ?req = "example_request (JString (ascii ''Jane  Doe!!'')) (JString (ascii ''modern''))"
  have n: "pdf_filename (baseName (personName ?req))
      (templateSuffix (unicode_upper example_env) (ascii ''modern''))
      (uniqueId (uuid_unique example_env)) = ascii ''Jane_Doe_Modern_1b9d6bcd.pdf''"
    by (simp add: pdf_filename_def baseName_def sanitize_def trim_def isWhiteSpace_def
        isNameChar_def in_range_def substring0_def templateSuffix_def toUpperCase_def
        uniqueId_def example_request_def example_env_def ascii_def)
  have i: "uuid_id example_env = example_id"
    by (simp add: example_env_def example_id_def)
  have u: "ascii ''/download/'' @ example_id = ascii ''/download/9c5b94b1-35ad-49bb-b118-8e8fc24abf80''"
    by (simp add: example_id_def ascii_def)
  from example_modern_reaches[of example_env] obtain doc where
    br: "before_render example_env ?req = Inr (ascii ''Jane_Doe_Modern_1b9d6bcd.pdf'', example_id, doc)"
    unfolding n i by blast
  have b: "toBuffer example_env doc = Rendered [0x25, 0x50, 0x44, 0x46]"
    by (simp add: example_env_def)
  note p = prepare_pdf_stores[OF br b, of empty_server]
  from p have 1: "fst (prepare_pdf example_env ?req empty_server) =
      Prepared example_id (ascii ''/download/9c5b94b1-35ad-49bb-b118-8e8fc24abf80'')
         (ascii ''Jane_Doe_Modern_1b9d6bcd.pdf'')"
    unfolding u by simp
  from p have 2: "clock example_stored = 0 \<and> timeouts example_stored = [(600000, example_id)]"
    by (simp add: example_stored_def empty_server_def TTL_def)
  from 1 2 show ?thesis by (simp add: example_stored_def prod_eq_iff)
qed

lemmas example_stored_state = example_modern_stored [THEN conjunct2]

text \<open>
  When \<open>html\<close> is falsy nothing is stored and no identifier is returned, and the answer is
  400 when the log of line 48 does not throw.
\<close>

lemma missing_html_stores_nothing:
  assumes "\<not> truthy (html req)"
  shows "snd (prepare_pdf env req srv) = srv \<and> returned_id (fst (prepare_pdf env req srv)) = None"
  using assms by (simp add: prepare_pdf_def before_render_def)

lemma missing_html_answers_400:
  assumes "\<not> truthy (html req)"
    and "\<not> (truthy (personName req) \<and> ToString_throws (personName req))"
  shows "prepare_pdf env req srv = (MissingHtml, srv)"
  using assms by (simp add: prepare_pdf_def before_render_def)

text \<open>
  Claim C4, at a request without \<open>html\<close> whose \<open>personName\<close> is the object
  \<open>{"toString": 1}\<close>. The log of line 48 converts \<open>personName\<close> to a string before line 50
  tests \<open>html\<close>, the conversion throws a TypeError, and the answer is 500, not 400. Nothing is
  stored.
\<close>

theorem missing_html_log_throws:
  "prepare_pdf example_env
     \<lparr>html = JUndefined, personName = JObject [(ascii ''toString'', JNumber 1)],
      template = JUndefined\<rparr> empty_server
     = (Thrown TypeError, empty_server)
   \<and> status (fst (prepare_pdf example_env
        \<lparr>html = JUndefined, personName = JObject [(ascii ''toString'', JNumber 1)],
         template = JUndefined\<rparr> empty_server)) = 500"
  by (simp add: prepare_pdf_def before_render_def)

text \<open>
  Claim C5. When the handler gets as far as the renderer and the renderer hands an error to
  the callback (it failed or timed out), the handler answers 500 with the message of line
  99, returns no identifier and leaves the server as it was: the store is unchanged, and
  holds nothing under the identifier generated in line 88 unless it did before.
\<close>

theorem render_failure_stores_nothing:
  assumes "before_render env req = Inr (name, i, doc)" and "toBuffer env doc = RenderError"
  shows "fst (prepare_pdf env req srv) = FailedToCreate
     \<and> status (fst (prepare_pdf env req srv)) = 500
     \<and> returned_id (fst (prepare_pdf env req srv)) = None
     \<and> snd (prepare_pdf env req srv) = srv
     \<and> i = uuid_id env
     \<and> (pdfStore srv (uuid_id env) = None \<longrightarrow>
          pdfStore (snd (prepare_pdf env req srv)) (uuid_id env) = None)"
  using assms before_render_Inr[OF assms(1)]
  by (auto simp: prepare_pdf_def toBuffer_callback_def)

theorem render_failure_stores_nothing_witness:
  "prepare_pdf failing_env
     (example_request (JString (ascii ''Jane  Doe!!'')) (JString (ascii ''modern''))) empty_server
     = (FailedToCreate, empty_server)
   \<and> pdfStore (snd (prepare_pdf failing_env
        (example_request (JString (ascii ''Jane  Doe!!'')) (JString (ascii ''modern''))) empty_server))
        (uuid_id failing_env) = None"
proof -
  let ?req = "example_request (JString (ascii ''Jane  Doe!!'')) (JString (ascii ''modern''))"
  from example_modern_reaches[of failing_env] obtain name i doc where
    br: "before_render failing_env ?req = Inr (name, i, doc)" by blast
  have d: "toBuffer failing_env doc = RenderError" by (simp add: failing_env_def)
  from render_failure_stores_nothing[OF br d, of empty_server]
  show ?thesis by (simp add: prod_eq_iff empty_server_def)
qed

section \<open>Template names that are not listed\<close>

text \<open>
  Claim C8, at the template name \<open>constructor\<close>. It is not one of the three listed kinds,
  but \<open>TEMPLATE_STYLES['constructor']\<close> is the function \<open>Object\<close>, inherited from the
  prototype, so a style element is injected and the renderer does not get the original
  markup.
\<close>

theorem constructor_is_styled:
  \<open>finalHtml (ascii ''constructor'') (JString (ascii ''<head></head>'')) =
     Inr (JString (ascii ''<head><style id="template-injection">function Object() { [native code] }</style>''
            @ [0x0A] @ ascii ''</head>''))
   \<and> finalHtml (ascii ''constructor'') (JString (ascii ''<head></head>'')) \<noteq> Inr (JString (ascii ''<head></head>''))\<close>
  by (simp add: finalHtml_def styleSnippet_def TEMPLATE_STYLES_def own_styles_def
      Object_prototype_def ascii_def replace_def styleTag_def)

lemma unknown_kind_unstyled:
  assumes "map_of own_styles t = None" and "Object_prototype t = Undefined"
  shows "finalHtml t doc = Inr doc"
  using assms by (simp add: finalHtml_def styleSnippet_def TEMPLATE_STYLES_def)

lemma classic_suffix: "templateSuffix U (ascii ''classic'') = ascii ''Classic''"
  by (simp add: templateSuffix_def toUpperCase_def ascii_def in_range_def)

section \<open>The default template\<close>

lemma classic_name:
  "pdf_filename (baseName (personName req)) (templateSuffix U (ascii ''classic''))
     (uniqueId (uuid_unique env))
   = baseName (personName req) @ ascii ''_Classic_'' @ take 8 (uuid_unique env) @ ascii ''.pdf''"
  unfolding pdf_filename_def classic_suffix uniqueId_def substring0_def
  by (simp add: ascii_def)

text \<open>
  Claim C10. When the \<open>template\<close> query parameter is absent or empty, the template name is
  \<open>classic\<close>, and the request is handled exactly as with \<open>?template=classic\<close>. For a string
  document and a \<open>personName\<close> that the log can print, the renderer gets the document with
  the classic style in front of its first \<open></head>\<close>, or the document as it is when it has
  no \<open></head>\<close>, and in both cases the file name has the segment \<open>Classic\<close>. Every file name
  that is returned and stored has it.
\<close>

theorem absent_template_is_classic:
  assumes "template req = JUndefined \<or> template req = JString []"
    and "name = baseName (personName req) @ ascii ''_Classic_'' @ take 8 (uuid_unique env) @ ascii ''.pdf''"
  shows \<open>templateName req = Inr (ascii ''classic'')
     \<and> prepare_pdf env req srv = prepare_pdf env (req\<lparr>template := JString (ascii ''classic'')\<rparr>) srv
     \<and> (\<not> (truthy (personName req) \<and> ToString_throws (personName req))
          \<and> html req = JString h \<and> first_occurrence (ascii ''</head>'') h i
        \<longrightarrow> before_render env req =
              Inr (name, uuid_id env,
                   take i h @ ascii ''<style id="template-injection">'' @ classic_css
                     @ ascii ''</style>'' @ [0x0A] @ drop i h))
     \<and> (\<not> (truthy (personName req) \<and> ToString_throws (personName req))
          \<and> html req = JString h \<and> h \<noteq> [] \<and> no_occurrence (ascii ''</head>'') h
        \<longrightarrow> before_render env req = Inr (name, uuid_id env, h))
     \<and> (prepare_pdf env req srv = (Prepared i' url name', srv')
        \<longrightarrow> name' = name \<and> map_option filename (pdfStore srv' i') = Some name)\<close>
proof -
  from assms(1) have t: "templateName req = Inr (ascii ''classic'')"
    by (auto simp: templateName_def)
  have t': "templateName (req\<lparr>template := JString (ascii ''classic'')\<rparr>) = Inr (ascii ''classic'')"
    by (simp add: templateName_def ascii_def)
  have "before_render env req = before_render env (req\<lparr>template := JString (ascii ''classic'')\<rparr>)"
    by (simp add: before_render_def t t')
  then have 2: "prepare_pdf env req srv
      = prepare_pdf env (req\<lparr>template := JString (ascii ''classic'')\<rparr>) srv"
    by (simp add: prepare_pdf_def)
  have m: "map_of own_styles (ascii ''classic'') = Some classic_css"
    by (simp add: own_styles_def ascii_def)
  note n = classic_name[of req "unicode_upper env" env, folded assms(2)]
  have 3: \<open>before_render env req =
              Inr (name, uuid_id env,
                   take i h @ ascii ''<style id="template-injection">'' @ classic_css
                     @ ascii ''</style>'' @ [0x0A] @ drop i h)\<close>
    if p: "\<not> (truthy (personName req) \<and> ToString_throws (personName req))"
      and h: "html req = JString h" and f: \<open>first_occurrence (ascii ''</head>'') h i\<close>
  proof -
    from f have "h \<noteq> []"
      by (auto simp: first_occurrence_def occurs_at_def ascii_def)
    with h have tr: "truthy (html req)" by simp
    from finalHtml_injects[OF m f] h
    have fh: \<open>finalHtml (ascii ''classic'') (html req) =
        Inr (JString (take i h @ ascii ''<style id="template-injection">'' @ classic_css
                     @ ascii ''</style>'' @ [0x0A] @ drop i h))\<close> by simp
    have ne: \<open>take i h @ ascii ''<style id="template-injection">'' @ classic_css
                     @ ascii ''</style>'' @ [0x0A] @ drop i h \<noteq> []\<close> by simp
    from before_render_reaches[OF p tr t fh ne, of env] show ?thesis
      unfolding n .
  qed
  have 4: "before_render env req = Inr (name, uuid_id env, h)"
    if p: "\<not> (truthy (personName req) \<and> ToString_throws (personName req))"
      and h: "html req = JString h" and ne: "h \<noteq> []"
      and f: \<open>no_occurrence (ascii ''</head>'') h\<close>
  proof -
    from h ne have tr: "truthy (html req)" by simp
    from finalHtml_no_marker[OF f] h
    have fh: "finalHtml (ascii ''classic'') (html req) = Inr (JString h)" by simp
    from before_render_reaches[OF p tr t fh ne, of env] show ?thesis
      unfolding n .
  qed
  have 5: "name' = name \<and> map_option filename (pdfStore srv' i') = Some name"
    if pr: "prepare_pdf env req srv = (Prepared i' url name', srv')"
  proof -
    from prepare_pdf_Prepared[OF pr] t
    have "name' = pdf_filename (baseName (personName req))
        (templateSuffix (unicode_upper env) (ascii ''classic'')) (uniqueId (uuid_unique env))"
      and "map_option filename (pdfStore srv' i') = Some name'"
      by auto
    then show ?thesis unfolding n by simp
  qed
  from t 2 3 4 5 show ?thesis by blast
qed

theorem absent_template_is_classic_witness:
  \<open>before_render example_env (example_request (JString (ascii ''Jane  Doe!!'')) JUndefined) =
     Inr (ascii ''Jane_Doe_Classic_1b9d6bcd.pdf'', example_id,
          ascii ''<html><head><style id="template-injection">'' @ classic_css
            @ ascii ''</style>'' @ [0x0A] @ ascii ''</head><body>CV</body></html>'')
   \<and> before_render example_env
       \<lparr>html = JString (ascii ''<p>CV</p>''), personName = JUndefined, template = JString []\<rparr> =
     Inr (ascii ''CV_Classic_1b9d6bcd.pdf'', example_id, ascii ''<p>CV</p>'')\<close>
proof -
  let ?req = "example_request (JString (ascii ''Jane  Doe!!'')) JUndefined"
  let ?req' = "\<lparr>html = JString (ascii ''<p>CV</p>''), personName = JUndefined, template = JString []\<rparr>"
  have a: "template ?req = JUndefined \<or> template ?req = JString []"
    by (simp add: example_request_def)
  have a': "template ?req' = JUndefined \<or> template ?req' = JString []"
    by simp
  have d: "ascii ''Jane_Doe_Classic_1b9d6bcd.pdf'' =
     baseName (personName ?req) @ ascii ''_Classic_'' @ take 8 (uuid_unique example_env) @ ascii ''.pdf''"
    by (simp add: example_request_def example_env_def baseName_def sanitize_def trim_def
        isWhiteSpace_def isNameChar_def in_range_def substring0_def ascii_def)
  have d': "ascii ''CV_Classic_1b9d6bcd.pdf'' =
     baseName (personName ?req') @ ascii ''_Classic_'' @ take 8 (uuid_unique example_env) @ ascii ''.pdf''"
    by (simp add: example_env_def baseName_def ascii_def)
  have c: \<open>no_occurrence (ascii ''</head>'') (ascii ''<p>CV</p>'')\<close>
    by (simp add: no_occurrence_def occurs_at_def ascii_def upt_rec)
  from absent_template_is_classic[OF a d,
      where h = "ascii ''<html><head></head><body>CV</body></html>''" and i = 12]
    example_first_head
  have 1: \<open>before_render example_env ?req =
     Inr (ascii ''Jane_Doe_Classic_1b9d6bcd.pdf'', example_id,
          ascii ''<html><head><style id="template-injection">'' @ classic_css
            @ ascii ''</style>'' @ [0x0A] @ ascii ''</head><body>CV</body></html>'')\<close>
    by (simp add: example_request_def example_env_def example_id_def ascii_def)
  from absent_template_is_classic[OF a' d', where h = "ascii ''<p>CV</p>''"] c
  have 2: "before_render example_env ?req' =
     Inr (ascii ''CV_Classic_1b9d6bcd.pdf'', example_id, ascii ''<p>CV</p>'')"
    by (simp add: example_env_def example_id_def ascii_def)
  from 1 2 show ?thesis by simp
qed

section \<open>The file name of a prepared PDF\<close>

lemma trim_Nil: "trim [] = []"
  by (simp add: trim_def)

lemma baseName_spec: "baseName v = spec_base_name v"
  by (cases v) (auto simp: baseName_def spec_base_name_def sanitize_spec_base trim_Nil)

lemma is_uuid_prefix:
  assumes "is_uuid u"
  shows "length (take 8 u) = 8 \<and> list_all isHexDigit (take 8 u)"
proof -
  from assms have len: "length u = 36"
    and all: "\<forall>i<36. if i \<in> set [8, 13, 18, 23] then u ! i = 0x2D else isHexDigit (u ! i)"
    by (auto simp: is_uuid_def list_all_iff)
  have "isHexDigit (take 8 u ! k)" if "k < 8" for k
  proof -
    from that have "k < 36" "k \<notin> set [8, 13, 18, 23]" by auto
    with all have "isHexDigit (u ! k)" by auto
    with that show ?thesis by simp
  qed
  with len show ?thesis by (simp add: list_all_length)
qed

lemma example_uuid: "is_uuid (uuid_unique example_env)"
  by (simp add: is_uuid_def example_env_def ascii_def isHexDigit_def in_range_def upt_rec)

lemma hexDigit_nameChar: "isHexDigit c \<Longrightarrow> isNameChar c"
  by (auto simp: isHexDigit_def isNameChar_def in_range_def)

lemma prepare_pdf_Prepared':
  assumes "prepare_pdf env req srv = (Prepared i url name, srv')" and "templateName req = Inr t"
  shows "name = pdf_filename (baseName (personName req)) (templateSuffix (unicode_upper env) t)
           (uniqueId (uuid_unique env))
     \<and> map_option filename (pdfStore srv' i) = Some name"
  using prepare_pdf_Prepared[OF assms(1)] assms(2) by auto

text \<open>
  Claim C7. The file name of a prepared PDF is the base, an underscore, the template name
  with its first code unit in upper case, an underscore, the first 8 code units of a fresh
  identifier and \<open>.pdf\<close>, and it is the name kept in the store. The base is the default
  \<open>CV\<close> unless \<open>personName\<close> is a string that is not blank; then it is the trimmed name with
  its words joined by single underscores, without the code units outside \<open>[A-Za-z0-9_-]\<close>,
  cut to 50. So \<open>Jane  Doe!!\<close> with the template \<open>modern\<close> gives
  \<open>Jane_Doe_Modern_\<close>, 8 code units and \<open>.pdf\<close>.
\<close>

theorem filename_derivation:
  assumes "prepare_pdf env req srv = (Prepared i url name, srv')" and "templateName req = Inr t"
  shows "name = spec_base_name (personName req) @ ascii ''_'' @ templateSuffix (unicode_upper env) t
                  @ ascii ''_'' @ take 8 (uuid_unique env) @ ascii ''.pdf''
     \<and> map_option filename (pdfStore srv' i) = Some name
     \<and> (is_uuid (uuid_unique env) \<longrightarrow> length (take 8 (uuid_unique env)) = 8)
     \<and> (\<forall>c cs. t = c # cs \<and> in_range 0x61 0x7A c \<longrightarrow>
          templateSuffix (unicode_upper env) t = (c - 0x20) # cs)
     \<and> (personName req = JString (ascii ''Jane  Doe!!'') \<and> t = ascii ''modern'' \<longrightarrow>
          name = ascii ''Jane_Doe_Modern_'' @ take 8 (uuid_unique env) @ ascii ''.pdf'')"
proof -
  from prepare_pdf_Prepared'[OF assms]
  have n: "name = pdf_filename (baseName (personName req)) (templateSuffix (unicode_upper env) t)
           (uniqueId (uuid_unique env))"
    and st: "map_option filename (pdfStore srv' i) = Some name" by auto
  have 1: "name = spec_base_name (personName req) @ ascii ''_'' @ templateSuffix (unicode_upper env) t
                  @ ascii ''_'' @ take 8 (uuid_unique env) @ ascii ''.pdf''"
    unfolding n by (simp add: pdf_filename_def baseName_spec uniqueId_def substring0_def)
  have 3: "is_uuid (uuid_unique env) \<longrightarrow> length (take 8 (uuid_unique env)) = 8"
    using is_uuid_prefix by blast
  have 4: "\<forall>c cs. t = c # cs \<and> in_range 0x61 0x7A c \<longrightarrow>
          templateSuffix (unicode_upper env) t = (c - 0x20) # cs"
    by (simp add: templateSuffix_def toUpperCase_def)
  have 5: "personName req = JString (ascii ''Jane  Doe!!'') \<and> t = ascii ''modern'' \<longrightarrow>
          name = ascii ''Jane_Doe_Modern_'' @ take 8 (uuid_unique env) @ ascii ''.pdf''"
    unfolding n
    by (simp add: pdf_filename_def baseName_def sanitize_def trim_def isWhiteSpace_def
        isNameChar_def in_range_def substring0_def templateSuffix_def toUpperCase_def
        uniqueId_def ascii_def)
  from 1 st 3 4 5 show ?thesis by blast
qed

theorem filename_derivation_witness:
  "fst (prepare_pdf example_env
          (example_request (JString (ascii ''Jane  Doe!!'')) (JString (ascii ''modern''))) empty_server)
     = Prepared example_id (ascii ''/download/9c5b94b1-35ad-49bb-b118-8e8fc24abf80'')
         (ascii ''Jane_Doe_Modern_1b9d6bcd.pdf'')
   \<and> spec_base_name (JString (ascii ''Jane  Doe!!'')) = ascii ''Jane_Doe''
   \<and> is_uuid (uuid_unique example_env)"
proof -
  let ?req = "example_request (JString (ascii ''Jane  Doe!!'')) (JString (ascii ''modern''))"
  note p = example_modern_stored [THEN conjunct1]
  have t: "templateName ?req = Inr (ascii ''modern'')"
    by (simp add: templateName_def example_request_def ascii_def)
  have pn: "personName ?req = JString (ascii ''Jane  Doe!!'')"
    by (simp add: example_request_def)
  note fd = filename_derivation[OF p t, unfolded pn]
  from fd have "ascii ''Jane_Doe_Modern_1b9d6bcd.pdf'' =
      spec_base_name (JString (ascii ''Jane  Doe!!'')) @ ascii ''_''
      @ templateSuffix (unicode_upper example_env) (ascii ''modern'')
      @ ascii ''_'' @ take 8 (uuid_unique example_env) @ ascii ''.pdf''"
    by blast
  then have "spec_base_name (JString (ascii ''Jane  Doe!!'')) = ascii ''Jane_Doe''"
    by (simp add: templateSuffix_def toUpperCase_def in_range_def example_env_def ascii_def)
  with p example_uuid show ?thesis by simp
qed

lemma baseName_safe: "list_all isNameChar (baseName v) \<and> length (baseName v) \<le> 50"
proof -
  have cv: "list_all isNameChar (ascii ''CV'') \<and> length (ascii ''CV'') \<le> 50"
    by (simp add: ascii_def isNameChar_def in_range_def)
  show ?thesis
    using cv sanitize_nameChars sanitize_length
    by (cases v) (auto simp: baseName_def)
qed

lemma toUpperCase_nameChar:
  assumes "isNameChar c"
  shows "\<exists>d. toUpperCase U c = [d] \<and> isNameChar d"
proof (cases "in_range 0x61 0x7A c")
  case True
  then have "(0x20 :: jschar) \<le> c"
    by (simp add: in_range_def word_le_nat_alt)
  then have "unat (c - 0x20) = unat c - 0x20"
    by (simp add: unat_sub)
  with True have "isNameChar (c - 0x20)"
    by (auto simp: isNameChar_def in_range_def)
  with True show ?thesis by (simp add: toUpperCase_def)
next
  case False
  with assms have "unat c < 0x80"
    by (auto simp: isNameChar_def in_range_def)
  with False assms show ?thesis by (simp add: toUpperCase_def)
qed

lemma nameChar_suffix:
  assumes "list_all isNameChar t"
  shows "list_all isNameChar (templateSuffix U t) \<and> length (templateSuffix U t) = length t"
proof (cases t)
  case Nil
  then show ?thesis by (simp add: templateSuffix_def)
next
  case (Cons c cs)
  with assms have "isNameChar c" "list_all isNameChar cs" by simp_all
  with toUpperCase_nameChar[of c U] Cons show ?thesis
    by (auto simp: templateSuffix_def)
qed

lemma listed_length: "map_of own_styles t \<noteq> None \<Longrightarrow> length t \<le> 7"
proof -
  assume "map_of own_styles t \<noteq> None"
  then obtain css where "map_of own_styles t = Some css" by auto
  from own_styles_cases[OF this] show ?thesis by (auto simp: ascii_def)
qed

lemma underscore_pdf: "list_all isNameChar (ascii ''_'') \<and> length (ascii ''_'') = 1 \<and> length (ascii ''.pdf'') = 4"
  by (simp add: ascii_def isNameChar_def in_range_def)

lemma take_drop_stem: "take (length a) (a @ b) = a \<and> drop (length a) (a @ b) = b"
  by simp

text \<open>
  Claim C2, as amended. When the template name has only code units from \<open>[A-Za-z0-9_-]\<close>
  (the three listed kinds have, and so has the default of an absent or empty parameter)
  and the identifier is a UUID, the stored file name is a stem of code units from
  \<open>[A-Za-z0-9_-]\<close> followed by \<open>.pdf\<close>. It has at most 64 code units and those of the
  template name: 50 for the base, 8 for the identifier, two underscores and the extension.
  For the listed kinds that is at most 71.
\<close>

theorem name_template_filename_safe:
  assumes "prepare_pdf env req srv = (Prepared i url name, srv')"
    and "templateName req = Inr t" and "list_all isNameChar t"
    and "is_uuid (uuid_unique env)"
  shows "map_option filename (pdfStore srv' i) = Some name
     \<and> drop (length name - 4) name = ascii ''.pdf''
     \<and> list_all isNameChar (take (length name - 4) name)
     \<and> length name \<le> 64 + length t
     \<and> (map_of own_styles t \<noteq> None \<longrightarrow> length name \<le> 71)"
proof -
  let ?stem = "baseName (personName req) @ ascii ''_'' @ templateSuffix (unicode_upper env) t
      @ ascii ''_'' @ take 8 (uuid_unique env)"
  from prepare_pdf_Prepared'[OF assms(1,2)]
  have n: "name = ?stem @ ascii ''.pdf''"
    and st: "map_option filename (pdfStore srv' i) = Some name"
    by (auto simp: pdf_filename_def uniqueId_def substring0_def)
  from is_uuid_prefix[OF assms(4)]
  have u: "length (take 8 (uuid_unique env)) = 8" "list_all isNameChar (take 8 (uuid_unique env))"
    by (auto simp: list_all_iff hexDigit_nameChar)
  note b = baseName_safe[of "personName req"] and s = nameChar_suffix[OF assms(3), of "unicode_upper env"]
  have safe: "list_all isNameChar ?stem"
    using b s u(2) underscore_pdf by simp
  have len: "length ?stem \<le> 60 + length t"
    using b s u(1) underscore_pdf by simp
  have 4: "length name - 4 = length ?stem"
    unfolding n using underscore_pdf by simp
  have "drop (length name - 4) name = ascii ''.pdf''" "take (length name - 4) name = ?stem"
    unfolding 4 unfolding n using take_drop_stem[of ?stem "ascii ''.pdf''"] by blast+
  moreover have l: "length name \<le> 64 + length t"
    unfolding n using len underscore_pdf by simp
  moreover have "map_of own_styles t \<noteq> None \<longrightarrow> length name \<le> 71"
    using l listed_length[of t] by auto
  ultimately show ?thesis using st safe by simp
qed

lemma example_two_column_stored:
  "prepare_pdf example_env
     (example_request (JString (ascii ''Jane  Doe!!'')) (JString (ascii ''two-column''))) empty_server
     = (Prepared example_id (ascii ''/download/9c5b94b1-35ad-49bb-b118-8e8fc24abf80'')
         (ascii ''Jane_Doe_Two-column_1b9d6bcd.pdf''),
        \<lparr>pdfStore = [example_id \<mapsto> \<lparr>buffer = [0x25, 0x50, 0x44, 0x46],
           filename = ascii ''Jane_Doe_Two-column_1b9d6bcd.pdf''\<rparr>],
         timeouts = [(600000, example_id)], clock = 0\<rparr>)"
  by (simp add: Let_def prepare_pdf_def before_render_def toBuffer_callback_def templateName_def
      example_env_def example_request_def
      example_id_def empty_server_def TTL_def pdf_filename_def baseName_def sanitize_def trim_def
      isWhiteSpace_def isNameChar_def in_range_def substring0_def templateSuffix_def
      toUpperCase_def uniqueId_def finalHtml_def styleSnippet_def TEMPLATE_STYLES_def
      own_styles_def Object_prototype_def Object_prototype_methods_def ascii_def)

theorem name_template_filename_safe_witness:
  "list_all isNameChar (ascii ''Jane_Doe_Two-column_1b9d6bcd'')
   \<and> length (ascii ''Jane_Doe_Two-column_1b9d6bcd.pdf'') \<le> 64 + length (ascii ''two-column'')
   \<and> list_all isNameChar (ascii ''two-column'')
   \<and> is_uuid (uuid_unique example_env)"
proof -
  let ?req = "example_request (JString (ascii ''Jane  Doe!!'')) (JString (ascii ''two-column''))"
  have t: "templateName ?req = Inr (ascii ''two-column'')"
    by (simp add: templateName_def example_request_def ascii_def)
  have c: "list_all isNameChar (ascii ''two-column'')"
    by (simp add: isNameChar_def in_range_def ascii_def)
  have l: "length (ascii ''Jane_Doe_Two-column_1b9d6bcd.pdf'') = 32"
    by (simp add: ascii_def)
  note safe = name_template_filename_safe[OF example_two_column_stored t c example_uuid]
  from safe have "list_all isNameChar (take (32 - 4) (ascii ''Jane_Doe_Two-column_1b9d6bcd.pdf''))"
    unfolding l by blast
  then have 1: "list_all isNameChar (ascii ''Jane_Doe_Two-column_1b9d6bcd'')"
    by (simp add: ascii_def)
  from safe have 2: "length (ascii ''Jane_Doe_Two-column_1b9d6bcd.pdf'') \<le> 64 + length (ascii ''two-column'')"
    by blast
  from 1 2 c example_uuid show ?thesis by simp
qed

lemma example_classic_stored:
  "prepare_pdf example_env
     (example_request (JString (ascii ''Maximiliana Alexandrina Wilhelmina von Hohenzollern-Sigmaringen''))
        (JString (ascii ''classic''))) empty_server
     = (Prepared example_id (ascii ''/download/9c5b94b1-35ad-49bb-b118-8e8fc24abf80'')
         (ascii ''Maximiliana_Alexandrina_Wilhelmina_von_Hohenzoller_Classic_1b9d6bcd.pdf''),
        \<lparr>pdfStore = [example_id \<mapsto> \<lparr>buffer = [0x25, 0x50, 0x44, 0x46],
           filename = ascii ''Maximiliana_Alexandrina_Wilhelmina_von_Hohenzoller_Classic_1b9d6bcd.pdf''\<rparr>],
         timeouts = [(600000, example_id)], clock = 0\<rparr>)"
  by (simp add: Let_def prepare_pdf_def before_render_def toBuffer_callback_def templateName_def example_env_def example_request_def
      example_id_def empty_server_def TTL_def pdf_filename_def baseName_def sanitize_def trim_def
      isWhiteSpace_def isNameChar_def in_range_def substring0_def templateSuffix_def
      toUpperCase_def uniqueId_def finalHtml_def styleSnippet_def TEMPLATE_STYLES_def
      own_styles_def classic_css_def replace_def styleTag_def ascii_def)

text \<open>
  Claim C2 as stated fails in its bound: the base alone may have 50 code units. With the
  listed template \<open>classic\<close> and a long name, the stored file name has only code units from
  \<open>[A-Za-z0-9_-]\<close> in front of \<open>.pdf\<close> and has 71 of them, more than 60.
\<close>

theorem long_name_filename_exceeds_60:
  "prepare_pdf example_env
     (example_request (JString (ascii ''Maximiliana Alexandrina Wilhelmina von Hohenzollern-Sigmaringen''))
        (JString (ascii ''classic''))) empty_server
     = (Prepared example_id (ascii ''/download/9c5b94b1-35ad-49bb-b118-8e8fc24abf80'')
         (ascii ''Maximiliana_Alexandrina_Wilhelmina_von_Hohenzoller_Classic_1b9d6bcd.pdf''),
        \<lparr>pdfStore = [example_id \<mapsto> \<lparr>buffer = [0x25, 0x50, 0x44, 0x46],
           filename = ascii ''Maximiliana_Alexandrina_Wilhelmina_von_Hohenzoller_Classic_1b9d6bcd.pdf''\<rparr>],
         timeouts = [(600000, example_id)], clock = 0\<rparr>)
   \<and> length (ascii ''Maximiliana_Alexandrina_Wilhelmina_von_Hohenzoller_Classic_1b9d6bcd.pdf'') = 71
   \<and> 60 < length (ascii ''Maximiliana_Alexandrina_Wilhelmina_von_Hohenzoller_Classic_1b9d6bcd.pdf'')"
  using example_classic_stored by (simp add: ascii_def)

section \<open>Downloading\<close>

text \<open>
  Claim C1, at a template name that is a line feed (\<open>?template=%0A\<close>). The conversion
  succeeds and stores the PDF under a file name that holds the line feed. The download
  then throws in \<open>res.set\<close>, before \<open>res.send\<close> and \<open>pdfStore.delete\<close>: the answer is an error
  and the entry stays in the store, so no download of it ever succeeds.
\<close>

theorem download_throws_on_line_feed:
  "prepare_pdf example_env (example_request JUndefined (JString [0x0A])) empty_server
     = (Prepared example_id (ascii ''/download/9c5b94b1-35ad-49bb-b118-8e8fc24abf80'')
          (ascii ''CV_'' @ [0x0A] @ ascii ''_1b9d6bcd.pdf''),
        \<lparr>pdfStore = [example_id \<mapsto> \<lparr>buffer = [0x25, 0x50, 0x44, 0x46],
           filename = ascii ''CV_'' @ [0x0A] @ ascii ''_1b9d6bcd.pdf''\<rparr>],
         timeouts = [(600000, example_id)], clock = 0\<rparr>)
   \<and> fst (download example_id
         (snd (prepare_pdf example_env (example_request JUndefined (JString [0x0A])) empty_server)))
       = Thrown TypeError
   \<and> snd (download example_id
         (snd (prepare_pdf example_env (example_request JUndefined (JString [0x0A])) empty_server)))
       = snd (prepare_pdf example_env (example_request JUndefined (JString [0x0A])) empty_server)"
  by (simp add: Let_def prepare_pdf_def before_render_def toBuffer_callback_def templateName_def
      example_env_def example_request_def
      example_id_def empty_server_def TTL_def pdf_filename_def baseName_def substring0_def
      templateSuffix_def toUpperCase_def uniqueId_def finalHtml_def styleSnippet_def
      TEMPLATE_STYLES_def own_styles_def Object_prototype_def Object_prototype_methods_def
      download_def content_disposition_def valid_header_char_def in_range_def ascii_def)

text \<open>With a file name that is a valid header value, the read is a consuming one.\<close>

lemma download_once:
  assumes "pdfStore srv i = Some data"
    and "list_all valid_header_char (content_disposition (filename data))"
  shows "download i srv =
      (Attachment (content_disposition (filename data)) (buffer data),
       srv\<lparr>pdfStore := (pdfStore srv)(i := None)\<rparr>)
    \<and> download i (snd (download i srv)) = (NotFound, snd (download i srv))"
  using assms by (simp add: download_def)

section \<open>Expiry\<close>

lemma fold_expire_store:
  "pdfStore (fold (\<lambda>t. expire (snd t)) ts s) i = (if i \<in> snd ` set ts then None else pdfStore s i)"
  by (induction ts arbitrary: s) (auto simp: expire_def)

lemma fold_expire_rest:
  "clock (fold (\<lambda>t. expire (snd t)) ts s) = clock s \<and> timeouts (fold (\<lambda>t. expire (snd t)) ts s) = timeouts s"
  by (induction ts arbitrary: s) (auto simp: expire_def)

lemma run_timers_store:
  "pdfStore (run_timers s) i =
     (if \<exists>t\<le>clock s. (t, i) \<in> set (timeouts s) then None else pdfStore s i)"
  by (force simp: run_timers_def fold_expire_store is_due_def)

lemma run_timers_rest:
  "clock (run_timers s) = clock s \<and> timeouts (run_timers s) = filter (Not \<circ> is_due s) (timeouts s)"
  by (simp add: run_timers_def fold_expire_rest)

lemma prepare_pdf_effect:
  "snd (prepare_pdf env req s) = s
   \<or> (\<exists>a. snd (prepare_pdf env req s) =
        s\<lparr>pdfStore := (pdfStore s)(uuid_id env \<mapsto> a),
          timeouts := timeouts s @ [(clock s + TTL, uuid_id env)]\<rparr>)"
proof -
  from prepare_pdf_cases[of env req s] show ?thesis
  proof (elim disjE exE conjE)
    fix name i doc buf
    assume br: "before_render env req = Inr (name, i, doc)"
      and p: "prepare_pdf env req s =
            (Prepared i (ascii ''/download/'' @ i) name,
             s\<lparr>pdfStore := (pdfStore s)(i \<mapsto> \<lparr>buffer = buf, filename = name\<rparr>),
                 timeouts := timeouts s @ [(clock s + TTL, i)]\<rparr>)"
    from before_render_Inr[OF br] have "i = uuid_id env" by blast
    with p show ?thesis by auto
  qed simp_all
qed

lemma download_effect:
  "snd (download j s) = s \<or> snd (download j s) = s\<lparr>pdfStore := (pdfStore s)(j := None)\<rparr>"
  by (auto simp: download_def split: option.splits)

lemma step_clock: "clock s \<le> clock (step e s)"
proof (cases e)
  case (PreparePdf env req)
  with prepare_pdf_effect[of env req s] show ?thesis by auto
next
  case (Download j)
  with download_effect[of j s] show ?thesis by auto
next
  case (Elapse ms)
  then show ?thesis by (simp add: elapse_def)
next
  case RunTimers
  then show ?thesis by (simp add: run_timers_rest)
qed

lemma run_clock: "clock s \<le> clock (run es s)"
proof (induction es arbitrary: s)
  case Nil
  show ?case by (simp add: run_def)
next
  case (Cons e es)
  have "clock s \<le> clock (step e s)" by (rule step_clock)
  also have "\<dots> \<le> clock (run es (step e s))" by (rule Cons.IH)
  finally show ?case by (simp add: run_def)
qed

lemma step_keeps:
  assumes inv: "\<forall>t. (t, i) \<in> set (timeouts s) \<longrightarrow> D \<le> t"
    and e: "\<not> stores i e" "\<not> retrieves i e"
    and c: "clock (step e s) < D"
  shows "pdfStore (step e s) i = pdfStore s i \<and> (\<forall>t. (t, i) \<in> set (timeouts (step e s)) \<longrightarrow> D \<le> t)"
proof (cases e)
  case (PreparePdf env req)
  with e have "uuid_id env \<noteq> i" by simp
  with prepare_pdf_effect[of env req s] inv PreparePdf show ?thesis by auto
next
  case (Download j)
  with e have "j \<noteq> i" by simp
  with download_effect[of j s] inv Download show ?thesis by auto
next
  case (Elapse ms)
  with inv show ?thesis by (simp add: elapse_def)
next
  case RunTimers
  with c have "clock s < D" by (simp add: run_timers_rest)
  with inv have ne: "\<not> (\<exists>t\<le>clock s. (t, i) \<in> set (timeouts s))" by fastforce
  have 1: "pdfStore (run_timers s) i = pdfStore s i"
    by (simp only: run_timers_store ne if_False)
  from inv have 2: "\<forall>t. (t, i) \<in> set (timeouts (run_timers s)) \<longrightarrow> D \<le> t"
    by (simp add: run_timers_rest)
  from 1 2 RunTimers show ?thesis by simp
qed

lemma kept_before_deadline:
  assumes "\<forall>t. (t, i) \<in> set (timeouts s) \<longrightarrow> D \<le> t"
    and "not_stored_again i es" and "never_retrieved i es" and "clock (run es s) < D"
  shows "pdfStore (run es s) i = pdfStore s i"
  using assms
proof (induction es arbitrary: s)
  case Nil
  show ?case by (simp add: run_def)
next
  case (Cons e es)
  have r: "run (e # es) s = run es (step e s)" by (simp add: run_def)
  from Cons.prems(2,3) have e: "\<not> stores i e" "\<not> retrieves i e"
    and es: "not_stored_again i es" "never_retrieved i es"
    by (simp_all add: not_stored_again_def never_retrieved_def)
  from Cons.prems(4) have d: "clock (run es (step e s)) < D" by (simp add: r)
  have "clock (step e s) \<le> clock (run es (step e s))" by (rule run_clock)
  with d have c: "clock (step e s) < D" by simp
  from step_keeps[OF Cons.prems(1) e c]
  have k: "pdfStore (step e s) i = pdfStore s i"
    and inv: "\<forall>t. (t, i) \<in> set (timeouts (step e s)) \<longrightarrow> D \<le> t" by auto
  from Cons.IH[OF inv es d] k show ?case by (simp add: r)
qed

lemma step_gone_or_pending:
  assumes "pdfStore s i = None \<or> (\<exists>t\<le>D. (t, i) \<in> set (timeouts s))" and "\<not> stores i e"
  shows "pdfStore (step e s) i = None \<or> (\<exists>t\<le>D. (t, i) \<in> set (timeouts (step e s)))"
proof (cases e)
  case (PreparePdf env req)
  with assms(2) have "uuid_id env \<noteq> i" by simp
  with prepare_pdf_effect[of env req s] assms(1) PreparePdf show ?thesis by auto
next
  case (Download j)
  with download_effect[of j s] assms(1) show ?thesis by auto
next
  case (Elapse ms)
  with assms(1) show ?thesis by (simp add: elapse_def)
next
  case RunTimers
  from assms(1) show ?thesis
  proof
    assume "pdfStore s i = None"
    with RunTimers show ?thesis by (simp add: run_timers_store)
  next
    assume "\<exists>t\<le>D. (t, i) \<in> set (timeouts s)"
    then obtain t where t: "t \<le> D" "(t, i) \<in> set (timeouts s)" by auto
    show ?thesis
    proof (cases "t \<le> clock s")
      case True
      with t RunTimers show ?thesis by (auto simp: run_timers_store)
    next
      case False
      with t have "(t, i) \<in> set (timeouts (run_timers s))"
        by (simp add: run_timers_rest is_due_def)
      with t RunTimers show ?thesis by auto
    qed
  qed
qed

lemma run_gone_or_pending:
  assumes "pdfStore s i = None \<or> (\<exists>t\<le>D. (t, i) \<in> set (timeouts s))" and "not_stored_again i es"
  shows "pdfStore (run es s) i = None \<or> (\<exists>t\<le>D. (t, i) \<in> set (timeouts (run es s)))"
  using assms
proof (induction es arbitrary: s)
  case Nil
  then show ?case by (simp add: run_def)
next
  case (Cons e es)
  from Cons.prems(2) have e: "\<not> stores i e" and es: "not_stored_again i es"
    by (simp_all add: not_stored_again_def)
  from Cons.IH[OF step_gone_or_pending[OF Cons.prems(1) e] es]
  show ?case by (simp add: run_def)
qed

lemma expired_when_due:
  assumes "pdfStore s i = None \<or> (\<exists>t\<le>D. (t, i) \<in> set (timeouts s))" and "D \<le> clock s"
  shows "pdfStore (run_timers s) i = None"
  using assms by (auto simp: run_timers_store)

lemma step_stays_gone:
  assumes "pdfStore s i = None" and "\<not> stores i e"
  shows "pdfStore (step e s) i = None"
proof (cases e)
  case (PreparePdf env req)
  with assms(2) have "uuid_id env \<noteq> i" by simp
  with prepare_pdf_effect[of env req s] assms(1) PreparePdf show ?thesis by auto
next
  case (Download j)
  with download_effect[of j s] assms(1) show ?thesis by auto
next
  case (Elapse ms)
  with assms(1) show ?thesis by (simp add: elapse_def)
next
  case RunTimers
  with assms(1) show ?thesis by (simp add: run_timers_store)
qed

lemma run_stays_gone:
  assumes "pdfStore s i = None" and "not_stored_again i es"
  shows "pdfStore (run es s) i = None"
  using assms
proof (induction es arbitrary: s)
  case Nil
  then show ?case by (simp add: run_def)
next
  case (Cons e es)
  from Cons.prems(2) have e: "\<not> stores i e" and es: "not_stored_again i es"
    by (simp_all add: not_stored_again_def)
  from Cons.IH[OF step_stays_gone[OF Cons.prems(1) e] es]
  show ?case by (simp add: run_def)
qed

lemma download_absent: "pdfStore s i = None \<Longrightarrow> download i s = (NotFound, s)"
  by (simp add: download_def)

lemma expire_absent: "pdfStore s i = None \<Longrightarrow> expire i s = s"
  by (simp add: expire_def fun_upd_idem)

lemma download_removes:
  "fst (download i s) = Attachment d b \<Longrightarrow> pdfStore (snd (download i s)) i = None"
  by (auto simp: download_def split: option.splits if_splits)

text \<open>
  Claim C3. Take a PDF just stored under \<open>i\<close> and any run after it that does not store under
  \<open>i\<close> again. If no timeout for \<open>i\<close> was pending before, \<open>i\<close> is never downloaded and the
  clock has not reached the time of storing plus the TTL, the entry is still there. Once the
  clock has reached it, the entry is gone as soon as the timers run, and each later download
  of \<open>i\<close> gives NotFound. The callback of the timeout leaves a server without the entry
  exactly as it is, in particular after a download has taken the entry. The TTL is 600000
  milliseconds.
\<close>

theorem expiry_after_ttl:
  assumes "prepare_pdf env req srv = (Prepared i url name, srv1)"
    and "not_stored_again i es"
  shows "(list_all (\<lambda>t. snd t \<noteq> i) (timeouts srv) \<and> never_retrieved i es
            \<and> clock (run es srv1) < clock srv + TTL
          \<longrightarrow> pdfStore (run es srv1) i = pdfStore srv1 i
              \<and> map_option filename (pdfStore srv1 i) = Some name)
     \<and> (clock srv + TTL \<le> clock (run es srv1)
          \<longrightarrow> pdfStore (run_timers (run es srv1)) i = None
              \<and> download i (run_timers (run es srv1)) = (NotFound, run_timers (run es srv1))
              \<and> (not_stored_again i es' \<longrightarrow>
                   fst (download i (run es' (run_timers (run es srv1)))) = NotFound))
     \<and> (pdfStore st i = None \<longrightarrow> expire i st = st)
     \<and> (fst (download i st) = Attachment d b \<longrightarrow>
          expire i (snd (download i st)) = snd (download i st))
     \<and> TTL = 600000"
proof -
  let ?D = "clock srv + TTL"
  from prepare_pdf_Prepared[OF assms(1)] obtain buf where
    srv1: "srv1 = srv\<lparr>pdfStore := (pdfStore srv)(i \<mapsto> \<lparr>buffer = buf, filename = name\<rparr>),
          timeouts := timeouts srv @ [(?D, i)]\<rparr>"
    by auto
  have a: "pdfStore (run es srv1) i = pdfStore srv1 i \<and> map_option filename (pdfStore srv1 i) = Some name"
    if f: "list_all (\<lambda>t. snd t \<noteq> i) (timeouts srv)" and n: "never_retrieved i es"
      and c: "clock (run es srv1) < ?D"
  proof -
    from f have inv: "\<forall>t. (t, i) \<in> set (timeouts srv1) \<longrightarrow> ?D \<le> t"
      by (auto simp: srv1 list_all_iff)
    from kept_before_deadline[OF inv assms(2) n c] show ?thesis by (simp add: srv1)
  qed
  have pend: "pdfStore srv1 i = None \<or> (\<exists>t\<le>?D. (t, i) \<in> set (timeouts srv1))"
    by (auto simp: srv1)
  have b: "pdfStore (run_timers (run es srv1)) i = None
              \<and> download i (run_timers (run es srv1)) = (NotFound, run_timers (run es srv1))
              \<and> (not_stored_again i es' \<longrightarrow>
                   fst (download i (run es' (run_timers (run es srv1)))) = NotFound)"
    if c: "?D \<le> clock (run es srv1)"
  proof -
    from expired_when_due[OF run_gone_or_pending[OF pend assms(2)] c]
    have g: "pdfStore (run_timers (run es srv1)) i = None" .
    from g run_stays_gone[OF g, of es'] download_absent show ?thesis by simp
  qed
  have e1: "pdfStore st i = None \<longrightarrow> expire i st = st"
    by (simp add: expire_absent)
  have e2: "fst (download i st) = Attachment d b \<longrightarrow>
          expire i (snd (download i st)) = snd (download i st)"
    using download_removes expire_absent by blast
  have "TTL = 600000" by (simp add: TTL_def)
  with a b e1 e2 show ?thesis by blast
qed

theorem expiry_after_ttl_witness:
  "map_option filename (pdfStore (run [Elapse 599999, RunTimers] example_stored) example_id)
     = Some (ascii ''Jane_Doe_Modern_1b9d6bcd.pdf'')
   \<and> pdfStore (run_timers (run [Elapse 599999, RunTimers, Elapse 1] example_stored)) example_id = None
   \<and> fst (download example_id (run_timers (run [Elapse 599999, RunTimers, Elapse 1] example_stored)))
       = NotFound"
proof -
  let ?es = "[Elapse 599999, RunTimers]"
  let ?es' = "[Elapse 599999, RunTimers, Elapse 1]"
  have n: "not_stored_again example_id ?es" "not_stored_again example_id ?es'"
    "never_retrieved example_id ?es"
    by (simp_all add: not_stored_again_def never_retrieved_def)
  have f: "list_all (\<lambda>t. snd t \<noteq> example_id) (timeouts empty_server)"
    by (simp add: empty_server_def)
  have c: "clock (run ?es example_stored) < clock empty_server + TTL"
    by (simp add: run_def elapse_def run_timers_rest example_stored_state empty_server_def TTL_def)
  have c': "clock empty_server + TTL \<le> clock (run ?es' example_stored)"
    by (simp add: run_def elapse_def run_timers_rest example_stored_state empty_server_def TTL_def)
  from expiry_after_ttl[OF example_modern_stored[THEN conjunct1] n(1)] f n(3) c
  have 1: "map_option filename (pdfStore (run ?es example_stored) example_id)
     = Some (ascii ''Jane_Doe_Modern_1b9d6bcd.pdf'')"
    by simp
  from expiry_after_ttl[OF example_modern_stored[THEN conjunct1] n(2)] c'
  have 2: "pdfStore (run_timers (run ?es' example_stored)) example_id = None"
    and 3: "download example_id (run_timers (run ?es' example_stored))
      = (NotFound, run_timers (run ?es' example_stored))"
    by blast+
  from 1 2 3 show ?thesis by simp
qed

end
